theory Spec2Isabelle
  imports Complex_Main
begin

section \<open>Numbers, vectors and the random source\<close>

text \<open>
  A JavaScript number is modelled as an exact real when it is finite, together with the
  three special values of IEEE arithmetic. Rounding, overflow, underflow and the sign of
  zero are left out: a finite operation on finite operands is the exact real operation.
  A zero divisor is taken as positive zero (the divisors of the code are results of
  \<open>Math.sqrt\<close> and configured radii).
\<close>

datatype jsnum = Fin real | PInf | NInf | NaN

fun is_finite :: "jsnum \<Rightarrow> bool" where
  "is_finite (Fin a) = True"
| "is_finite PInf = False"
| "is_finite NInf = False"
| "is_finite NaN = False"

fun jneg :: "jsnum \<Rightarrow> jsnum" where
  "jneg (Fin a) = Fin (- a)"
| "jneg PInf = NInf"
| "jneg NInf = PInf"
| "jneg NaN = NaN"

fun jadd :: "jsnum \<Rightarrow> jsnum \<Rightarrow> jsnum" where
  "jadd (Fin a) (Fin b) = Fin (a + b)"
| "jadd NaN b = NaN"
| "jadd a NaN = NaN"
| "jadd PInf NInf = NaN"
| "jadd NInf PInf = NaN"
| "jadd PInf b = PInf"
| "jadd a PInf = PInf"
| "jadd NInf b = NInf"
| "jadd a NInf = NInf"

definition jsub :: "jsnum \<Rightarrow> jsnum \<Rightarrow> jsnum" where
  "jsub a b = jadd a (jneg b)"

fun jmul :: "jsnum \<Rightarrow> jsnum \<Rightarrow> jsnum" where
  "jmul (Fin a) (Fin b) = Fin (a * b)"
| "jmul NaN b = NaN"
| "jmul a NaN = NaN"
| "jmul (Fin a) b = (if a = 0 then NaN else if 0 < a then b else jneg b)"
| "jmul a (Fin b) = (if b = 0 then NaN else if 0 < b then a else jneg a)"
| "jmul a b = (if a = b then PInf else NInf)"

fun jdiv :: "jsnum \<Rightarrow> jsnum \<Rightarrow> jsnum" where
  "jdiv (Fin a) (Fin b) =
     (if b \<noteq> 0 then Fin (a / b)
      else if a = 0 then NaN
      else if 0 < a then PInf else NInf)"
| "jdiv NaN b = NaN"
| "jdiv a NaN = NaN"
| "jdiv (Fin a) b = Fin 0"
| "jdiv a (Fin b) = (if 0 \<le> b then a else jneg a)"
| "jdiv a b = NaN"

fun jsqrt :: "jsnum \<Rightarrow> jsnum" where
  "jsqrt (Fin a) = (if a < 0 then NaN else Fin (sqrt a))"
| "jsqrt PInf = PInf"
| "jsqrt NInf = NaN"
| "jsqrt NaN = NaN"

fun jlt :: "jsnum \<Rightarrow> jsnum \<Rightarrow> bool" where
  "jlt (Fin a) (Fin b) = (a < b)"
| "jlt NaN b = False"
| "jlt a NaN = False"
| "jlt a NInf = False"
| "jlt PInf b = False"
| "jlt a b = True"

datatype vec3 = Vector3 (vec_x: real) (vec_y: real) (vec_z: real)

text \<open>
  \<open>Math.random\<close> is a stream of draws, read through a cursor that every function
  using it returns advanced. No statement below needs its contract, that each draw lies
  in \<open>[0, 1)\<close>.
\<close>

type_synonym rng = "nat \<Rightarrow> real"

datatype js_error = TypeError

section \<open>Configuration\<close>

text \<open>
  The fields of \<open>CONFIG\<close> that the modelled functions read. Times of the model are in
  milliseconds, as \<open>Date.now\<close> and \<open>setTimeout\<close> count them; \<open>animationDuration\<close> is in
  seconds, as the source has it. The easing curve that the string \<open>animationEase\<close> names
  is a function on the progress of a tween.
\<close>

record config =
  treeHeight :: real
  treeBaseRadius :: real
  scatterRadius :: real
  animationDuration :: real
  animationEase :: "real \<Rightarrow> real"
  gestureDebounceTime :: real
  snowInteractionRadius :: real
  snowWaveRadius :: real

text \<open>GSAP's curve \<open>back.out(s)\<close>, the one \<open>CONFIG.animationEase\<close> names with \<open>s = 1.2\<close>.\<close>

definition back_out :: "real \<Rightarrow> real \<Rightarrow> real" where
  "back_out s p = (if p = 0 then 0 else (p - 1) * (p - 1) * ((s + 1) * (p - 1) + s) + 1)"

definition CONFIG :: config where
  "CONFIG = \<lparr> treeHeight = 20, treeBaseRadius = 8, scatterRadius = 50,
     animationDuration = 18 / 10, animationEase = back_out (12 / 10),
     gestureDebounceTime = 1000, snowInteractionRadius = 5, snowWaveRadius = 15 \<rparr>"

section \<open>Snow field (snow.js)\<close>

text \<open>
  \<open>createSnowSystem\<close> builds the position array (three numbers a particle) and the
  velocity array together, one entry a particle; the model keeps them zipped in one list.
  The position array is a \<open>Float32Array\<close>: its rounding to single precision is left out
  with all other rounding.
\<close>

record snowflake =
  pos_x :: jsnum
  pos_y :: jsnum
  pos_z :: jsnum
  vel_x :: jsnum
  vel_y :: jsnum
  vel_z :: jsnum

text \<open>
  The body of the loop of \<open>updateSnowSystem\<close> for one particle; \<open>k\<close> is the cursor of
  the random source. \<open>applyVelocity\<close> is its first block, the three additions to the
  position array.
\<close>

definition applyVelocity :: "snowflake \<Rightarrow> snowflake" where
  "applyVelocity f = f\<lparr> pos_x := jadd (pos_x f) (vel_x f),
                          pos_y := jadd (pos_y f) (vel_y f),
                          pos_z := jadd (pos_z f) (vel_z f) \<rparr>"

definition updateSnowParticle ::
  "config \<Rightarrow> rng \<Rightarrow> bool \<Rightarrow> vec3 \<Rightarrow> snowflake \<Rightarrow> nat \<Rightarrow> snowflake \<times> nat" where
  "updateSnowParticle cfg rnd handDetected handPosition f k =
    (let f1 = applyVelocity f;
         f2 = (if handDetected then
                 (let dx = jsub (pos_x f1) (Fin (vec_x handPosition));
                      dy = jsub (pos_y f1) (Fin (vec_y handPosition));
                      dz = jsub (pos_z f1) (Fin (vec_z handPosition));
                      distance = jsqrt (jadd (jadd (jmul dx dx) (jmul dy dy)) (jmul dz dz))
                  in if jlt distance (Fin (snowInteractionRadius cfg)) then
                       (let force = jdiv (jsub (Fin (snowInteractionRadius cfg)) distance)
                                         (Fin (snowInteractionRadius cfg))
                        in f1\<lparr> vel_x := jadd (vel_x f1)
                                     (jmul (jmul (jdiv dx distance) force) (Fin (2 / 10))),
                                vel_z := jadd (vel_z f1)
                                     (jmul (jmul (jdiv dz distance) force) (Fin (2 / 10))) \<rparr>)
                     else f1)
               else f1);
         f3 = f2\<lparr> vel_x := jmul (vel_x f2) (Fin (98 / 100)),
                  vel_z := jmul (vel_z f2) (Fin (98 / 100)) \<rparr>
     in if jlt (pos_y f3) (Fin (- 10)) then
          (f3\<lparr> pos_x := Fin ((rnd k - 5 / 10) * 100),
                pos_y := Fin (rnd (k + 1) * 30 + 50),
                pos_z := Fin ((rnd (k + 2) - 5 / 10) * 100),
                vel_x := Fin 0,
                vel_z := Fin 0,
                vel_y := Fin (- (rnd (k + 3) * (6 / 100) + 2 / 100)) \<rparr>, k + 4)
        else (f3, k))"

text \<open>
  The loop \<open>for (i = 0; i < snowCount; i++)\<close>. Reading \<open>snowVelocities[i]\<close> beyond the
  array gives \<open>undefined\<close>, and its \<open>.x\<close> throws.
\<close>

fun updateSnowLoop ::
  "config \<Rightarrow> rng \<Rightarrow> bool \<Rightarrow> vec3 \<Rightarrow> nat list \<Rightarrow> snowflake list \<Rightarrow> nat
     \<Rightarrow> js_error + (snowflake list \<times> nat)" where
  "updateSnowLoop cfg rnd handDetected handPosition [] fs k = Inr (fs, k)"
| "updateSnowLoop cfg rnd handDetected handPosition (i # is) fs k =
     (if i < length fs then
        (case updateSnowParticle cfg rnd handDetected handPosition (fs ! i) k of
           (f', k') \<Rightarrow> updateSnowLoop cfg rnd handDetected handPosition is (fs[i := f']) k')
      else Inl TypeError)"

text \<open>\<open>snowParticles\<close> is \<open>null\<close> until \<open>init\<close> has run: the field is optional.\<close>

definition updateSnowSystem ::
  "config \<Rightarrow> rng \<Rightarrow> snowflake list option \<Rightarrow> nat \<Rightarrow> bool \<Rightarrow> vec3 \<Rightarrow> nat
     \<Rightarrow> js_error + (snowflake list option \<times> nat)" where
  "updateSnowSystem cfg rnd snowParticles snowCount handDetected handPosition k =
     (case snowParticles of
        None \<Rightarrow> Inr (None, k)
      | Some fs \<Rightarrow>
          (case updateSnowLoop cfg rnd handDetected handPosition [0 ..< snowCount] fs k of
             Inl e \<Rightarrow> Inl e
           | Inr (fs', k') \<Rightarrow> Inr (Some fs', k')))"

text \<open>
  One iteration of the loop of \<open>createSnowWave\<close>. The index drawn is
  \<open>Math.floor(Math.random() * snowCount)\<close>; a read of the position array outside its
  range gives \<open>undefined\<close>, the differences and the distance are then \<open>NaN\<close>, and the
  comparison with the radius is false.
\<close>

definition readPosition :: "snowflake list \<Rightarrow> int \<Rightarrow> (jsnum \<times> jsnum \<times> jsnum)" where
  "readPosition fs j =
     (if 0 \<le> j \<and> j < int (length fs)
      then (pos_x (fs ! nat j), pos_y (fs ! nat j), pos_z (fs ! nat j))
      else (NaN, NaN, NaN))"

definition snowWaveStep ::
  "config \<Rightarrow> vec3 \<Rightarrow> nat \<Rightarrow> real \<Rightarrow> snowflake list \<Rightarrow> snowflake list" where
  "snowWaveStep cfg position snowCount draw fs =
    (let randomIndex = \<lfloor>draw * real snowCount\<rfloor>
     in case readPosition fs randomIndex of (px, py, pz) \<Rightarrow>
       (let dx = jsub px (Fin (vec_x position));
            dy = jsub py (Fin (vec_y position));
            dz = jsub pz (Fin (vec_z position));
            distance = jsqrt (jadd (jadd (jmul dx dx) (jmul dy dy)) (jmul dz dz))
        in if jlt distance (Fin (snowWaveRadius cfg)) then
             (let velocity = fs ! nat randomIndex;
                  force = Fin (5 / 10)
              in fs[nat randomIndex := velocity\<lparr>
                   vel_x := jadd (vel_x velocity) (jmul (jdiv dx distance) force),
                   vel_y := jadd (vel_y velocity) (Fin (3 / 10)),
                   vel_z := jadd (vel_z velocity) (jmul (jdiv dz distance) force) \<rparr>])
           else fs))"

text \<open>The loop \<open>for (i = 0; i < Math.min(200, snowCount); i++)\<close>, one draw an iteration.\<close>

fun snowWaveLoop ::
  "config \<Rightarrow> vec3 \<Rightarrow> nat \<Rightarrow> rng \<Rightarrow> nat \<Rightarrow> nat \<Rightarrow> snowflake list \<Rightarrow> snowflake list" where
  "snowWaveLoop cfg position snowCount rnd k 0 fs = fs"
| "snowWaveLoop cfg position snowCount rnd k (Suc n) fs =
     snowWaveLoop cfg position snowCount rnd (Suc k) n
       (snowWaveStep cfg position snowCount (rnd k) fs)"

definition createSnowWave ::
  "config \<Rightarrow> rng \<Rightarrow> snowflake list option \<Rightarrow> nat \<Rightarrow> vec3 \<Rightarrow> nat
     \<Rightarrow> snowflake list option \<times> nat" where
  "createSnowWave cfg rnd snowParticles snowCount position k =
     (case snowParticles of
        None \<Rightarrow> (None, k)
      | Some fs \<Rightarrow>
          (Some (snowWaveLoop cfg position snowCount rnd k (min 200 snowCount) fs),
           k + min 200 snowCount))"

text \<open>Vocabulary of the statements about the snow field.\<close>

definition finite_flake :: "snowflake \<Rightarrow> bool" where
  "finite_flake f = (is_finite (pos_x f) \<and> is_finite (pos_y f) \<and> is_finite (pos_z f)
     \<and> is_finite (vel_x f) \<and> is_finite (vel_y f) \<and> is_finite (vel_z f))"

definition at_point :: "snowflake \<Rightarrow> vec3 \<Rightarrow> bool" where
  "at_point f p = (pos_x f = Fin (vec_x p) \<and> pos_y f = Fin (vec_y p) \<and> pos_z f = Fin (vec_z p))"

text \<open>How many of the draws \<open>k, ..., k + n - 1\<close> give the index \<open>j\<close>.\<close>

definition timesDrawn :: "rng \<Rightarrow> nat \<Rightarrow> nat \<Rightarrow> nat \<Rightarrow> nat \<Rightarrow> nat" where
  "timesDrawn rnd snowCount k n j =
     length (filter (\<lambda>i. \<lfloor>rnd i * real snowCount\<rfloor> = int j) [k ..< k + n])"

text \<open>A snowflake with finite coordinates, for the concrete instances below.\<close>

definition flake :: "real \<Rightarrow> real \<Rightarrow> real \<Rightarrow> real \<Rightarrow> real \<Rightarrow> real \<Rightarrow> snowflake" where
  "flake px py pz vx vy vz = \<lparr> pos_x = Fin px, pos_y = Fin py, pos_z = Fin pz,
     vel_x = Fin vx, vel_y = Fin vy, vel_z = Fin vz \<rparr>"

section \<open>Placement (ornaments.js, geometry-helpers.js)\<close>

text \<open>
  \<open>calculateTreePosition\<close>. The coordinates are exact reals. Where the source divides
  by zero (\<open>total = 0\<close> in \<open>index / total\<close>, \<open>H = 0\<close> in \<open>y_local / H\<close>) its result
  has a coordinate that is not finite; the model returns \<open>None\<close> there. The index is
  never negative, so \<open>Math.pow(t, 1.7)\<close> is the real power.
\<close>

definition calculateTreePosition ::
  "nat \<Rightarrow> nat \<Rightarrow> config \<Rightarrow> rng \<Rightarrow> nat \<Rightarrow> (vec3 \<times> nat) option" where
  "calculateTreePosition index total' cfg rnd k =
    (let H = treeHeight cfg;
         R_base = treeBaseRadius cfg
     in if total' = 0 \<or> H = 0 then None
        else
          (let t = real index / real total';
               t_weighted = t powr (17 / 10);
               y_local = t_weighted * H;
               y = y_local - H / 2;
               r_at_y = R_base * (1 - y_local / H);
               theta = rnd k * pi * 2;
               r_random =
                 (if y < - 5 then r_at_y * (7 / 10 + rnd (k + 1) * (5 / 10))
                  else if y > 5 then r_at_y * (85 / 100 + rnd (k + 1) * (3 / 10))
                  else r_at_y * (8 / 10 + rnd (k + 1) * (4 / 10)));
               x = r_random * cos theta;
               z = r_random * sin theta
           in Some (Vector3 x y z, k + 2)))"

text \<open>
  The rejection loops of \<open>randomInSphere\<close> and \<open>calculateScatterPosition\<close>, which the
  source writes out twice. Nothing bounds the number of rounds: a loop that never accepts
  a candidate is the value \<open>None\<close>.
\<close>

partial_function (option) randomInSphere :: "real \<Rightarrow> rng \<Rightarrow> nat \<Rightarrow> (vec3 \<times> nat) option" where
  "randomInSphere radius rnd k =
    (let x = (rnd k - 5 / 10) * 2 * radius;
         y = (rnd (k + 1) - 5 / 10) * 2 * radius;
         z = (rnd (k + 2) - 5 / 10) * 2 * radius
     in if x * x + y * y + z * z > radius * radius
        then randomInSphere radius rnd (k + 3)
        else Some (Vector3 x y z, k + 3))"

partial_function (option) scatterLoop :: "real \<Rightarrow> rng \<Rightarrow> nat \<Rightarrow> (vec3 \<times> nat) option" where
  "scatterLoop radius rnd k =
    (let x = (rnd k - 5 / 10) * 2 * radius;
         y = (rnd (k + 1) - 5 / 10) * 2 * radius;
         z = (rnd (k + 2) - 5 / 10) * 2 * radius
     in if x * x + y * y + z * z > radius * radius
        then scatterLoop radius rnd (k + 3)
        else Some (Vector3 x y z, k + 3))"

definition calculateScatterPosition :: "config \<Rightarrow> rng \<Rightarrow> nat \<Rightarrow> (vec3 \<times> nat) option" where
  "calculateScatterPosition cfg rnd k = scatterLoop (scatterRadius cfg) rnd k"

definition norm_sq :: "vec3 \<Rightarrow> real" where
  "norm_sq v = vec_x v * vec_x v + vec_y v * vec_y v + vec_z v * vec_z v"

text \<open>The candidate that a round of the loops starting at cursor \<open>k\<close> draws.\<close>

definition candidate :: "real \<Rightarrow> rng \<Rightarrow> nat \<Rightarrow> vec3" where
  "candidate radius rnd k =
     Vector3 ((rnd k - 5 / 10) * 2 * radius) ((rnd (k + 1) - 5 / 10) * 2 * radius)
             ((rnd (k + 2) - 5 / 10) * 2 * radius)"

section \<open>Gesture classifier (hand-tracking.js)\<close>

record landmark =
  lm_x :: real
  lm_y :: real
  lm_z :: real

datatype gesture = GestureNone | Partial | Fist | Open

definition fingerTips :: "nat list" where
  "fingerTips = [4, 8, 12, 16, 20]"

definition fingerPIPs :: "nat list" where
  "fingerPIPs = [3, 6, 10, 14, 18]"

definition fingerMCPs :: "nat list" where
  "fingerMCPs = [2, 5, 9, 13, 17]"

text \<open>
  \<open>detectGesture\<close>. The largest index read is 20: on fewer than 21 landmarks some read
  gives \<open>undefined\<close> and its \<open>.x\<close> or \<open>.y\<close> throws. The loop \<open>for (i = 1; i < 5; i++)\<close>
  is a fold over the indices.
\<close>

definition detectGesture :: "landmark list \<Rightarrow> js_error + gesture" where
  "detectGesture landmarks =
    (if length landmarks < 21 then Inl TypeError
     else
       (let thumbTip = landmarks ! 4;
            palmCenter = landmarks ! 0;
            thumbExtended = (\<bar>lm_x thumbTip - lm_x palmCenter\<bar> > 1 / 10);
            fingersExtended0 = (if thumbExtended then 1 else 0 :: nat);
            fingersExtended =
              fold (\<lambda>i n.
                      let tipY = lm_y (landmarks ! (fingerTips ! i));
                          pipY = lm_y (landmarks ! (fingerPIPs ! i))
                      in if tipY < pipY - 2 / 100 then n + 1 else n)
                   [1 ..< 5] fingersExtended0
        in if fingersExtended \<ge> 4 then Inr Open
           else if fingersExtended \<le> 1 then Inr Fist
           else Inr Partial))"

text \<open>Landmark frames for the concrete instances: a closed fist, an open hand.\<close>

definition restLandmark :: landmark where
  "restLandmark = \<lparr> lm_x = 1 / 2, lm_y = 1 / 2, lm_z = 0 \<rparr>"

definition fistFrame :: "landmark list" where
  "fistFrame = replicate 21 restLandmark"

definition openFrame :: "landmark list" where
  "openFrame = (replicate 21 restLandmark)
     [4 := restLandmark\<lparr> lm_x := 8 / 10 \<rparr>,
      8 := restLandmark\<lparr> lm_y := 2 / 10 \<rparr>,
      12 := restLandmark\<lparr> lm_y := 2 / 10 \<rparr>,
      16 := restLandmark\<lparr> lm_y := 2 / 10 \<rparr>,
      20 := restLandmark\<lparr> lm_y := 2 / 10 \<rparr>]"

definition partialFrame :: "landmark list" where
  "partialFrame = (replicate 21 restLandmark)
     [8 := restLandmark\<lparr> lm_y := 2 / 10 \<rparr>,
      12 := restLandmark\<lparr> lm_y := 2 / 10 \<rparr>]"

section \<open>Transitions (transitions.js, gather.js, scatter.js, main.js)\<close>

text \<open>
  Time is a real number of milliseconds, the value of \<open>Date.now\<close>. The code leaves its
  timing to the host and to GSAP, a library outside the repository, and neither keeps
  exact time; what they do is the environment of the model.
  \<^item> GSAP counts time by its ticker. \<open>lastTick t\<close> is the ticker's time at the moment
    \<open>t\<close>, the time of the last tick: never ahead of \<open>t\<close> and less than \<open>tickGap\<close>
    behind. \<open>nextTick x\<close> is the moment of the first tick at which the ticker's time has
    reached \<open>x\<close>, less than \<open>tickGap\<close> after \<open>x\<close>. Ticks come at most half a second
    apart (beyond that GSAP's lag smoothing changes its clock).
  \<^item> A timer set for the moment \<open>x\<close> runs at \<open>timerFire x\<close>, never early and at most
    \<open>timerLag\<close> late.
\<close>

record env =
  tickGap :: real
  lastTick :: "real \<Rightarrow> real"
  nextTick :: "real \<Rightarrow> real"
  timerLag :: real
  timerFire :: "real \<Rightarrow> real"

definition env_ok :: "env \<Rightarrow> bool" where
  "env_ok e =
     (tickGap e \<le> 500
      \<and> (\<forall>t. t - tickGap e < lastTick e t \<and> lastTick e t \<le> t)
      \<and> (\<forall>x. x \<le> nextTick e x \<and> nextTick e x < x + tickGap e)
      \<and> (\<forall>x. x \<le> timerFire e x \<and> timerFire e x \<le> x + timerLag e))"

text \<open>
  The contract of \<open>gsap.to\<close> that the model keeps. A tween starts at the ticker's time
  of its creation plus its delay. From then on, at every tick, it writes the value
  \<open>s + (end - s) * ease(progress)\<close>, rounded to six decimals, where \<open>s\<close> is the value the
  property had at its start; from the end of its duration on the progress is 1, and its
  \<open>onComplete\<close> runs at the first tick that reaches the end. A tween created later
  overrides an earlier one of the same property from its own start. Every ornament
  carries the tweens made for its position, newest first; its position at a moment is
  what the last tick wrote.
\<close>

definition round6 :: "real \<Rightarrow> real" where
  "round6 x = real_of_int \<lfloor>x * 1000000 + 1 / 2\<rfloor> / 1000000"

definition round6v :: "vec3 \<Rightarrow> vec3" where
  "round6v v = Vector3 (round6 (vec_x v)) (round6 (vec_y v)) (round6 (vec_z v))"

record tween =
  tw_start :: real
  tw_duration :: real
  tw_ease :: "real \<Rightarrow> real"
  tw_to :: vec3

record mesh =
  position :: vec3
  treePosition :: vec3
  scatterPosition :: vec3
  tweens :: "tween list"

definition lerp :: "vec3 \<Rightarrow> vec3 \<Rightarrow> real \<Rightarrow> vec3" where
  "lerp a b r = Vector3 (vec_x a + (vec_x b - vec_x a) * r)
                        (vec_y a + (vec_y b - vec_y a) * r)
                        (vec_z a + (vec_z b - vec_z a) * r)"

text \<open>The value of the property when the ticker's time is \<open>tk\<close>.\<close>

fun posAt :: "vec3 \<Rightarrow> tween list \<Rightarrow> real \<Rightarrow> vec3" where
  "posAt p0 [] tk = p0"
| "posAt p0 (tw # older) tk =
     (if tk < tw_start tw then posAt p0 older tk
      else round6v
             (lerp (posAt p0 older (tw_start tw)) (tw_to tw)
                   (if tw_start tw + tw_duration tw \<le> tk then 1
                    else tw_ease tw ((tk - tw_start tw) / tw_duration tw))))"

definition meshPosition :: "env \<Rightarrow> mesh \<Rightarrow> real \<Rightarrow> vec3" where
  "meshPosition e m t = posAt (position m) (tweens m) (lastTick e t)"

text \<open>The moment at which a tween created at \<open>c\<close>, without delay, completes.\<close>

definition tweenDone :: "env \<Rightarrow> real \<Rightarrow> real \<Rightarrow> real" where
  "tweenDone e c duration = nextTick e (lastTick e c + duration)"

text \<open>
  The callbacks that the transition code leaves with \<open>setTimeout\<close> and with the
  \<open>onComplete\<close> of the ribbon's opacity tweens. A continuation is what awaits the
  promise of \<open>gatherAll\<close> or \<open>scatterAll\<close>: \<open>Some toGathered\<close> for the rest of
  \<open>transitionState\<close>, \<open>None\<close> when the caller drops the promise (as \<open>init\<close> does).
\<close>

type_synonym continuation = "bool option"

datatype callback =
    RibbonReveal continuation
  | RibbonFadeInDone continuation
  | RibbonFadeOutDone continuation
  | Reenable bool

type_synonym timer = "real \<times> callback"

datatype effect = SnowSpiral vec3 | SnowWave vec3 | Transition bool

text \<open>
  The variables of \<open>main.js\<close> and \<open>hand-tracking.js\<close> that the transition and gesture
  code reads and writes; the fields \<open>hts_\<close> are those of \<open>handTrackingState\<close>. The star
  light, the top star and the label of the button take no part in any decision and are
  left out. \<open>timers\<close> holds the pending callbacks, each with the moment at which it runs.
\<close>

record app =
  now :: real
  isGathered :: bool
  animating :: bool
  btnDisabled :: bool
  ornaments :: "mesh list"
  ribbonVisible :: bool
  ribbonOpacity :: real
  timers :: "timer list"
  rngPos :: nat
  lastGesture :: "gesture option"
  lastGestureTime :: real
  hts_detected :: bool
  hts_position :: vec3
  hts_gesture :: gesture

text \<open>\<open>setTimeout(cb, delay)\<close>: a negative delay counts as zero.\<close>

definition setTimeout :: "env \<Rightarrow> callback \<Rightarrow> real \<Rightarrow> app \<Rightarrow> app" where
  "setTimeout e cb delay s =
     s\<lparr> timers := timers s @ [(timerFire e (now s + max 0 delay), cb)] \<rparr>"

text \<open>
  \<open>gatherAll\<close>: every ornament gets a tween to its tree position, delayed by
  \<open>index * 0.002\<close> seconds; the ribbon is revealed by a timer at half the duration.
  The argument \<open>tk\<close> of the loop is the ticker's time at the call.
\<close>

fun gatherOrnaments :: "config \<Rightarrow> real \<Rightarrow> nat \<Rightarrow> mesh list \<Rightarrow> mesh list" where
  "gatherOrnaments cfg tk index [] = []"
| "gatherOrnaments cfg tk index (m # ms) =
     m\<lparr> tweens := \<lparr> tw_start = tk + real index * 2,
                       tw_duration = animationDuration cfg * 1000,
                       tw_ease = animationEase cfg,
                       tw_to = treePosition m \<rparr> # tweens m \<rparr>
       # gatherOrnaments cfg tk (index + 1) ms"

definition gatherAll :: "env \<Rightarrow> config \<Rightarrow> continuation \<Rightarrow> app \<Rightarrow> app" where
  "gatherAll e cfg c s =
     setTimeout e (RibbonReveal c) (animationDuration cfg * 500)
       (s\<lparr> ornaments := gatherOrnaments cfg (lastTick e (now s)) 0 (ornaments s) \<rparr>)"

text \<open>
  \<open>scatterAll\<close>: every ornament draws a new scatter position and gets a tween to it; the
  ribbon fades out in 0.3 seconds and the promise resolves when it has. A rejection loop
  that never accepts leaves the whole call without a result.
\<close>

fun scatterOrnaments ::
  "config \<Rightarrow> rng \<Rightarrow> real \<Rightarrow> nat \<Rightarrow> mesh list \<Rightarrow> nat \<Rightarrow> (mesh list \<times> nat) option" where
  "scatterOrnaments cfg rnd tk index [] k = Some ([], k)"
| "scatterOrnaments cfg rnd tk index (m # ms) k =
     (case calculateScatterPosition cfg rnd k of
        None \<Rightarrow> None
      | Some (p, k1) \<Rightarrow>
          (case scatterOrnaments cfg rnd tk (index + 1) ms k1 of
             None \<Rightarrow> None
           | Some (ms', k2) \<Rightarrow>
               Some (m\<lparr> scatterPosition := p,
                         tweens := \<lparr> tw_start = tk + real index * 2,
                                       tw_duration = animationDuration cfg * 1000,
                                       tw_ease = animationEase cfg,
                                       tw_to = p \<rparr> # tweens m \<rparr> # ms', k2)))"

definition scatterAll :: "env \<Rightarrow> config \<Rightarrow> rng \<Rightarrow> continuation \<Rightarrow> app \<Rightarrow> app option" where
  "scatterAll e cfg rnd c s =
     (case scatterOrnaments cfg rnd (lastTick e (now s)) 0 (ornaments s) (rngPos s) of
        None \<Rightarrow> None
      | Some (ms', k') \<Rightarrow>
          Some (s\<lparr> ornaments := ms', rngPos := k',
                    timers := timers s @ [(tweenDone e (now s) 300, RibbonFadeOutDone c)] \<rparr>))"

text \<open>
  \<open>transitionState\<close>, up to its \<open>await\<close>: the guard, the button, and the call of
  \<open>gatherAll\<close> or \<open>scatterAll\<close>. What follows the \<open>await\<close> is the continuation
  \<open>Some toGathered\<close>, run by \<open>resume\<close> when the promise resolves.
\<close>

definition transitionState :: "env \<Rightarrow> bool \<Rightarrow> config \<Rightarrow> rng \<Rightarrow> app \<Rightarrow> app option" where
  "transitionState e toGathered cfg rnd s =
     (if animating s then Some s
      else
        (let s1 = s\<lparr> animating := True, btnDisabled := True \<rparr>
         in if toGathered then Some (gatherAll e cfg (Some toGathered) s1)
            else scatterAll e cfg rnd (Some toGathered) s1))"

definition resume :: "env \<Rightarrow> config \<Rightarrow> continuation \<Rightarrow> app \<Rightarrow> app" where
  "resume e cfg c s =
     (case c of
        None \<Rightarrow> s
      | Some toGathered \<Rightarrow> setTimeout e (Reenable toGathered) (animationDuration cfg * 1000) s)"

text \<open>
  What each callback does. The timer of \<open>gatherAll\<close> shows the ribbon and starts its
  fade of 0.5 seconds, whose \<open>onComplete\<close> resolves the promise.
\<close>

definition fire :: "env \<Rightarrow> config \<Rightarrow> callback \<Rightarrow> app \<Rightarrow> app" where
  "fire e cfg cb s =
     (case cb of
        RibbonReveal c \<Rightarrow>
          s\<lparr> ribbonVisible := True, ribbonOpacity := 0,
              timers := timers s @ [(tweenDone e (now s) 500, RibbonFadeInDone c)] \<rparr>
      | RibbonFadeInDone c \<Rightarrow> resume e cfg c (s\<lparr> ribbonOpacity := 9 / 10 \<rparr>)
      | RibbonFadeOutDone c \<Rightarrow>
          resume e cfg c (s\<lparr> ribbonOpacity := 0, ribbonVisible := False \<rparr>)
      | Reenable toGathered \<Rightarrow> s\<lparr> animating := False, btnDisabled := False \<rparr>)"

text \<open>
  The passing of time: \<open>advance e cfg t\<close> runs the callbacks whose moment is not after
  \<open>t\<close>, earliest first and in the order of their registration when they fall together,
  each at its own moment, and then sets the clock to \<open>t\<close>.
\<close>

fun earliest :: "timer list \<Rightarrow> timer option" where
  "earliest [] = None"
| "earliest (x # xs) =
     (case earliest xs of
        None \<Rightarrow> Some x
      | Some y \<Rightarrow> if fst y < fst x then Some y else Some x)"

definition nextDue :: "real \<Rightarrow> timer list \<Rightarrow> timer option" where
  "nextDue t ts = earliest (filter (\<lambda>tm. fst tm \<le> t) ts)"

fun rank :: "callback \<Rightarrow> nat" where
  "rank (RibbonReveal c) = 3"
| "rank (RibbonFadeInDone c) = 2"
| "rank (RibbonFadeOutDone c) = 2"
| "rank (Reenable g) = 1"

definition pendingRank :: "app \<Rightarrow> nat" where
  "pendingRank s = sum_list (map (\<lambda>tm. rank (snd tm)) (timers s))"

definition fireTimer :: "env \<Rightarrow> config \<Rightarrow> timer \<Rightarrow> app \<Rightarrow> app" where
  "fireTimer e cfg tm s =
     fire e cfg (snd tm) (s\<lparr> timers := remove1 tm (timers s), now := max (now s) (fst tm) \<rparr>)"

function advance :: "env \<Rightarrow> config \<Rightarrow> real \<Rightarrow> app \<Rightarrow> app" where
  "advance e cfg t s =
     (case nextDue t (timers s) of
        None \<Rightarrow> s\<lparr> now := max (now s) t \<rparr>
      | Some tm \<Rightarrow> advance e cfg t (fireTimer e cfg tm s))"
  by pat_completeness auto

termination advance
proof (relation "measure (\<lambda>(e, cfg, t, s). pendingRank s)")
  show "wf (measure (\<lambda>(e, cfg, t, s). pendingRank s))" by simp
next
  fix e :: env and cfg :: config and t :: real and s :: app and tm :: timer
  assume due: "nextDue t (timers s) = Some tm"
  have in_set: "y \<in> set ts" if "earliest ts = Some y" for ts :: "timer list" and y
    using that by (induction ts arbitrary: y) (auto split: option.splits if_splits)
  have "tm \<in> set (filter (\<lambda>tm. fst tm \<le> t) (timers s))"
    using due by (intro in_set) (simp add: nextDue_def)
  then have mem: "tm \<in> set (timers s)" by simp
  have split: "sum_list (map (\<lambda>tm. rank (snd tm)) (remove1 y ts)) + rank (snd y)
      = sum_list (map (\<lambda>tm. rank (snd tm)) ts)" if "y \<in> set ts" for ts :: "timer list" and y
    using that by (induction ts) auto
  have "0 < rank (snd tm)" by (cases "snd tm") simp_all
  then have "pendingRank (fireTimer e cfg tm s) < pendingRank s"
    using split [OF mem]
    by (cases "snd tm")
       (auto simp: pendingRank_def fireTimer_def fire_def resume_def setTimeout_def
             split: option.splits)
  then show "((e, cfg, t, fireTimer e cfg tm s), (e, cfg, t, s))
      \<in> measure (\<lambda>(e, cfg, t, s). pendingRank s)"
    by simp
qed

declare advance.simps [simp del]

text \<open>\<open>toggleState\<close>, the handler of the button.\<close>

definition toggleState :: "env \<Rightarrow> config \<Rightarrow> rng \<Rightarrow> app \<Rightarrow> app option" where
  "toggleState e cfg rnd s =
     transitionState e (\<not> isGathered s) cfg rnd (s\<lparr> isGathered := \<not> isGathered s \<rparr>)"

text \<open>
  \<open>onHandResults\<close>. \<open>multiHandLandmarks\<close> is the field of the MediaPipe result: absent,
  or the landmark lists of the hands seen. The calls of \<open>transitionState\<close> and of the two
  snow effects are returned in the order they are made; the transition is also carried
  out on the state, while the snow effects, which touch the snow arrays only, are left to
  the functions of the snow field. Drawing on the canvas and the gesture display are left
  out.
\<close>

definition onHandResults ::
  "env \<Rightarrow> config \<Rightarrow> rng \<Rightarrow> landmark list list option \<Rightarrow> app
     \<Rightarrow> (js_error + (effect list \<times> app)) option" where
  "onHandResults e cfg rnd multiHandLandmarks s =
    (case multiHandLandmarks of
       Some (landmarks # others) \<Rightarrow>
         (if length landmarks \<le> 9 then Some (Inl TypeError)
          else
            (let palmCenter = landmarks ! 9;
                 s1 = s\<lparr> hts_detected := True,
                          hts_position := Vector3 ((lm_x palmCenter - 5 / 10) * 80)
                                                  ((5 / 10 - lm_y palmCenter) * 60) 20 \<rparr>
             in case detectGesture landmarks of
                  Inl err \<Rightarrow> Some (Inl err)
                | Inr gesture \<Rightarrow>
                    (let s2 = s1\<lparr> hts_gesture := gesture \<rparr>;
                         currentTime = now s2;
                         spiral = (if gesture = Fist then [SnowSpiral (hts_position s2)] else [])
                     in if Some gesture \<noteq> lastGesture s2
                           \<and> currentTime - lastGestureTime s2 > gestureDebounceTime cfg
                        then
                          (if gesture = Fist \<and> \<not> isGathered s2 \<and> \<not> animating s2 then
                             (case transitionState e True cfg rnd (s2\<lparr> isGathered := True \<rparr>) of
                                None \<Rightarrow> None
                              | Some s3 \<Rightarrow>
                                  Some (Inr (spiral @ [Transition True],
                                        s3\<lparr> lastGestureTime := currentTime,
                                            lastGesture := Some gesture \<rparr>)))
                           else if gesture = Open \<and> isGathered s2 \<and> \<not> animating s2 then
                             (case transitionState e False cfg rnd (s2\<lparr> isGathered := False \<rparr>) of
                                None \<Rightarrow> None
                              | Some s3 \<Rightarrow>
                                  Some (Inr (spiral @ [Transition False, SnowWave (hts_position s2)],
                                        s3\<lparr> lastGestureTime := currentTime,
                                            lastGesture := Some gesture \<rparr>)))
                           else if gesture = Open then
                             Some (Inr (spiral @ [SnowWave (hts_position s2)],
                                   s2\<lparr> lastGestureTime := currentTime,
                                       lastGesture := Some gesture \<rparr>))
                           else Some (Inr (spiral, s2\<lparr> lastGesture := Some gesture \<rparr>)))
                        else Some (Inr (spiral, s2)))))
     | _ \<Rightarrow> Some (Inr ([], s\<lparr> hts_detected := False \<rparr>)))"

text \<open>
  \<open>stopHandTracking\<close>, as far as it writes the variables of the model: it forgets the
  last gesture.
\<close>

definition stopHandTracking :: "app \<Rightarrow> app" where
  "stopHandTracking s = s\<lparr> lastGesture := None, hts_detected := False \<rparr>"

text \<open>
  A run of landmark frames within one session of hand tracking, each with the moment at
  which its result arrives; time passes between them. Every call made is returned with
  the value of \<open>Date.now\<close> in the frame that made it.
\<close>

fun handFrames ::
  "env \<Rightarrow> config \<Rightarrow> rng \<Rightarrow> (real \<times> landmark list list option) list \<Rightarrow> app
     \<Rightarrow> (js_error + ((real \<times> effect) list \<times> app)) option" where
  "handFrames e cfg rnd [] s = Some (Inr ([], s))"
| "handFrames e cfg rnd ((t, r) # frames) s =
     (case onHandResults e cfg rnd r (advance e cfg t s) of
        None \<Rightarrow> None
      | Some (Inl err) \<Rightarrow> Some (Inl err)
      | Some (Inr (effs, s1)) \<Rightarrow>
          (case handFrames e cfg rnd frames s1 of
             None \<Rightarrow> None
           | Some (Inl err) \<Rightarrow> Some (Inl err)
           | Some (Inr (effs', s2)) \<Rightarrow>
               Some (Inr (map (Pair (now (advance e cfg t s))) effs @ effs', s2))))"

text \<open>Vocabulary of the statements about transitions and gestures.\<close>

fun discrete :: "effect \<Rightarrow> bool" where
  "discrete (SnowSpiral p) = False"
| "discrete (SnowWave p) = True"
| "discrete (Transition g) = True"

definition gatherRequests :: "effect list \<Rightarrow> nat" where
  "gatherRequests effs = length (filter (\<lambda>x. x = Transition True) effs)"

text \<open>
  The moment of the last discrete action of a run, or \<open>d\<close> when it has none.
\<close>

fun lastActionTime :: "real \<Rightarrow> (real \<times> effect) list \<Rightarrow> real" where
  "lastActionTime d [] = d"
| "lastActionTime d (te # rest) = lastActionTime (if discrete (snd te) then fst te else d) rest"

text \<open>
  The actions of a run keep their distance: every discrete action comes more than \<open>D\<close>
  after the action before it, or in the same frame; \<open>prev\<close> is the moment of the last
  action before the run.
\<close>

fun spaced :: "real \<Rightarrow> real \<Rightarrow> (real \<times> effect) list \<Rightarrow> bool" where
  "spaced D prev [] = True"
| "spaced D prev (te # rest) =
     (if discrete (snd te) then (fst te = prev \<or> D < fst te - prev) \<and> spaced D (fst te) rest
      else spaced D prev rest)"

text \<open>
  Two positions agree within the tolerance of a tween when no coordinate differs by more
  than half a millionth, the rounding of the values a tween writes.
\<close>

definition near :: "vec3 \<Rightarrow> vec3 \<Rightarrow> bool" where
  "near a b = (\<bar>vec_x a - vec_x b\<bar> \<le> 5 / 10000000 \<and> \<bar>vec_y a - vec_y b\<bar> \<le> 5 / 10000000
     \<and> \<bar>vec_z a - vec_z b\<bar> \<le> 5 / 10000000)"

text \<open>
  The moment at which the guard of a gather requested at \<open>c\<close> is cleared: the timer of the
  ribbon, its fade of half a second, the timer of the continuation.
\<close>

definition gatherClear :: "env \<Rightarrow> config \<Rightarrow> real \<Rightarrow> real" where
  "gatherClear e cfg c =
     timerFire e (tweenDone e (timerFire e (c + max 0 (animationDuration cfg * 500))) 500
                  + max 0 (animationDuration cfg * 1000))"

text \<open>
  A state in which nothing is pending, as after \<open>init\<close> once its first scatter has run
  out: the ornaments rest and no timer is left.
\<close>

definition quiescent :: "app \<Rightarrow> bool" where
  "quiescent s = (\<not> animating s \<and> timers s = [])"

definition restingApp :: "mesh list \<Rightarrow> real \<Rightarrow> app" where
  "restingApp ms t = \<lparr> now = t, isGathered = False, animating = False, btnDisabled = False,
     ornaments = ms, ribbonVisible = False, ribbonOpacity = 0, timers = [], rngPos = 0,
     lastGesture = None, lastGestureTime = 0, hts_detected = False,
     hts_position = Vector3 0 0 0, hts_gesture = GestureNone \<rparr>"

definition restingMesh :: "vec3 \<Rightarrow> vec3 \<Rightarrow> mesh" where
  "restingMesh p q = \<lparr> position = p, treePosition = q, scatterPosition = p, tweens = [] \<rparr>"

text \<open>
  An environment for the concrete instances: a tick every 16 milliseconds and every
  timer one millisecond late.
\<close>

definition steadyEnv :: env where
  "steadyEnv = \<lparr> tickGap = 16,
     lastTick = (\<lambda>t. 16 * real_of_int \<lfloor>t / 16\<rfloor>),
     nextTick = (\<lambda>x. 16 * real_of_int \<lceil>x / 16\<rceil>),
     timerLag = 1,
     timerFire = (\<lambda>x. x + 1) \<rparr>"

text \<open>
  A transition is in flight from the call of \<open>transitionState\<close> that passes the guard to
  the timer that clears it; all that time exactly one callback leading to that timer is
  pending. \<open>inFlight\<close> counts them. \<open>reachable\<close> collects the states that the entry
  points and the passing of time lead to.
\<close>

fun releases :: "callback \<Rightarrow> bool" where
  "releases (RibbonReveal c) = (c \<noteq> None)"
| "releases (RibbonFadeInDone c) = (c \<noteq> None)"
| "releases (RibbonFadeOutDone c) = (c \<noteq> None)"
| "releases (Reenable g) = True"

definition inFlight :: "app \<Rightarrow> nat" where
  "inFlight s = length (filter (\<lambda>tm. releases (snd tm)) (timers s))"

definition guardInv :: "app \<Rightarrow> bool" where
  "guardInv s = (inFlight s = (if animating s then 1 else 0))"

inductive reachable :: "env \<Rightarrow> config \<Rightarrow> rng \<Rightarrow> app \<Rightarrow> app \<Rightarrow> bool" for e cfg rnd s0 where
  start: "reachable e cfg rnd s0 s0"
| request: "reachable e cfg rnd s0 s \<Longrightarrow> transitionState e g cfg rnd s = Some s'
     \<Longrightarrow> reachable e cfg rnd s0 s'"
| toggle: "reachable e cfg rnd s0 s \<Longrightarrow> toggleState e cfg rnd s = Some s'
     \<Longrightarrow> reachable e cfg rnd s0 s'"
| hand: "reachable e cfg rnd s0 s \<Longrightarrow> onHandResults e cfg rnd r s = Some (Inr (effs, s'))
     \<Longrightarrow> reachable e cfg rnd s0 s'"
| stop: "reachable e cfg rnd s0 s \<Longrightarrow> reachable e cfg rnd s0 (stopHandTracking s)"
| tick: "reachable e cfg rnd s0 s \<Longrightarrow> reachable e cfg rnd s0 (advance e cfg t s)"

text \<open>A frame that shows no hand, or a hand classified as \<open>g\<close>.\<close>

definition redetects :: "gesture \<Rightarrow> landmark list list option \<Rightarrow> bool" where
  "redetects g r =
     (case r of
        Some (landmarks # others) \<Rightarrow> detectGesture landmarks = Inr g
      | _ \<Rightarrow> True)"

section \<open>Snow field: proofs\<close>

lemma is_finite_iff: "is_finite a = (\<exists>r. a = Fin r)"
  by (cases a) auto

lemma sqrt_25: "sqrt 25 = 5"
  by (rule real_sqrt_unique) simp_all

lemma jsqrt_sumsq:
  "jsqrt (jadd (jadd (jmul (Fin a) (Fin a)) (jmul (Fin b) (Fin b))) (jmul (Fin c) (Fin c)))
     = Fin (sqrt (a * a + b * b + c * c))"
proof -
  have "0 \<le> a * a + b * b + c * c" by simp
  then show ?thesis by (simp add: not_less)
qed

lemma jsqrt_Fin_sumsq:
  "jsqrt (Fin (a * a + b * b + c * c)) = Fin (sqrt (a * a + b * b + c * c))"
proof -
  have "0 \<le> a * a + b * b + c * c" by simp
  then show ?thesis by (simp add: not_less)
qed

lemma jsub_Fin [simp]: "jsub (Fin a) (Fin b) = Fin (a - b)"
  by (simp add: jsub_def)

lemma jsub_NaN [simp]: "jsub NaN b = NaN"
  by (simp add: jsub_def)

lemma length_snowWaveStep [simp]: "length (snowWaveStep cfg p n d fs) = length fs"
  by (simp add: snowWaveStep_def Let_def split: prod.splits)

lemma snowWaveStep_other:
  "\<lfloor>d * real n\<rfloor> \<noteq> int j \<Longrightarrow> snowWaveStep cfg p n d fs ! j = fs ! j"
  by (auto simp: snowWaveStep_def Let_def readPosition_def nat_eq_iff split: prod.splits if_splits)

lemma snowWaveStep_hit:
  assumes "j < length fs" "\<lfloor>d * real n\<rfloor> = int j"
    and "pos_x (fs ! j) = Fin px" "pos_y (fs ! j) = Fin py" "pos_z (fs ! j) = Fin pz"
    and "dd = sqrt ((px - vec_x p) * (px - vec_x p) + (py - vec_y p) * (py - vec_y p) + (pz - vec_z p) * (pz - vec_z p))"
    and "dd < snowWaveRadius cfg"
  shows "snowWaveStep cfg p n d fs ! j = (fs ! j)\<lparr>
      vel_x := jadd (vel_x (fs ! j)) (jmul (jdiv (Fin (px - vec_x p)) (Fin dd)) (Fin (5/10))),
      vel_y := jadd (vel_y (fs ! j)) (Fin (3/10)),
      vel_z := jadd (vel_z (fs ! j)) (jmul (jdiv (Fin (pz - vec_z p)) (Fin dd)) (Fin (5/10)))\<rparr>"
  using assms
  by (simp add: snowWaveStep_def Let_def readPosition_def jsqrt_sumsq del: jsqrt.simps jmul.simps jdiv.simps)

lemma timesDrawn_0 [simp]: "timesDrawn rnd n k 0 j = 0"
  by (simp add: timesDrawn_def)

lemma timesDrawn_Suc:
  "timesDrawn rnd n k (Suc m) j =
     (if \<lfloor>rnd k * real n\<rfloor> = int j then 1 else 0) + timesDrawn rnd n (Suc k) m j"
  by (simp add: timesDrawn_def upt_conv_Cons del: upt_Suc)

lemma snowWaveLoop_length [simp]: "length (snowWaveLoop cfg p n rnd k m fs) = length fs"
  by (induction m arbitrary: k fs) simp_all

lemma snowWaveLoop_effect:
  assumes "j < length fs"
    and "pos_x (fs ! j) = Fin px" "pos_y (fs ! j) = Fin py" "pos_z (fs ! j) = Fin pz"
    and "vel_x (fs ! j) = Fin vx" "vel_y (fs ! j) = Fin vy" "vel_z (fs ! j) = Fin vz"
    and "dd = sqrt ((px - vec_x p) * (px - vec_x p) + (py - vec_y p) * (py - vec_y p) + (pz - vec_z p) * (pz - vec_z p))"
    and "0 < dd" "dd < snowWaveRadius cfg"
  shows "snowWaveLoop cfg p n rnd k m fs ! j = (fs ! j)\<lparr>
      vel_x := Fin (vx + real (timesDrawn rnd n k m j) * ((px - vec_x p) / dd * (5 / 10))),
      vel_y := Fin (vy + real (timesDrawn rnd n k m j) * (3 / 10)),
      vel_z := Fin (vz + real (timesDrawn rnd n k m j) * ((pz - vec_z p) / dd * (5 / 10)))\<rparr>"
  using assms
proof (induction m arbitrary: k fs vx vy vz)
  case 0
  then show ?case by simp
next
  case (Suc m)
  let ?fs' = "snowWaveStep cfg p n (rnd k) fs"
  show ?case
  proof (cases "\<lfloor>rnd k * real n\<rfloor> = int j")
    case True
    have hit: "?fs' ! j = (fs ! j)\<lparr>
      vel_x := jadd (vel_x (fs ! j)) (jmul (jdiv (Fin (px - vec_x p)) (Fin dd)) (Fin (5/10))),
      vel_y := jadd (vel_y (fs ! j)) (Fin (3/10)),
      vel_z := jadd (vel_z (fs ! j)) (jmul (jdiv (Fin (pz - vec_z p)) (Fin dd)) (Fin (5/10)))\<rparr>"
      using Suc.prems True by (intro snowWaveStep_hit) auto
    have "snowWaveLoop cfg p n rnd (Suc k) m ?fs' ! j = (?fs' ! j)\<lparr>
      vel_x := Fin ((vx + (px - vec_x p) / dd * (5 / 10)) + real (timesDrawn rnd n (Suc k) m j) * ((px - vec_x p) / dd * (5 / 10))),
      vel_y := Fin ((vy + 3 / 10) + real (timesDrawn rnd n (Suc k) m j) * (3 / 10)),
      vel_z := Fin ((vz + (pz - vec_z p) / dd * (5 / 10)) + real (timesDrawn rnd n (Suc k) m j) * ((pz - vec_z p) / dd * (5 / 10)))\<rparr>"
      using Suc.prems by (intro Suc.IH) (simp_all add: hit)
    then show ?thesis
      using True by (simp add: hit timesDrawn_Suc distrib_right add.assoc add_divide_distrib)
  next
    case False
    have miss: "?fs' ! j = fs ! j"
      using False by (rule snowWaveStep_other)
    have "snowWaveLoop cfg p n rnd (Suc k) m ?fs' ! j = (?fs' ! j)\<lparr>
      vel_x := Fin (vx + real (timesDrawn rnd n (Suc k) m j) * ((px - vec_x p) / dd * (5 / 10))),
      vel_y := Fin (vy + real (timesDrawn rnd n (Suc k) m j) * (3 / 10)),
      vel_z := Fin (vz + real (timesDrawn rnd n (Suc k) m j) * ((pz - vec_z p) / dd * (5 / 10)))\<rparr>"
      using Suc.prems by (intro Suc.IH) (simp_all add: miss)
    then show ?thesis
      using False by (simp add: miss timesDrawn_Suc)
  qed
qed


lemma sumsq_zero_iff: "(a::real) * a + b * b + c * c = 0 \<longleftrightarrow> a = 0 \<and> b = 0 \<and> c = 0"
proof
  assume h: "a * a + b * b + c * c = 0"
  have "0 \<le> a * a" "0 \<le> b * b" "0 \<le> c * c" by simp_all
  with h have "a * a = 0" "b * b = 0" "c * c = 0" by linarith+
  then show "a = 0 \<and> b = 0 \<and> c = 0" by simp
qed simp

lemma updateSnowParticle_finite:
  assumes "finite_flake f" "handDetected \<Longrightarrow> \<not> at_point (applyVelocity f) hand"
  shows "finite_flake (fst (updateSnowParticle cfg rnd handDetected hand f k))"
proof -
  obtain px py pz vx vy vz where f: "pos_x f = Fin px" "pos_y f = Fin py" "pos_z f = Fin pz"
      "vel_x f = Fin vx" "vel_y f = Fin vy" "vel_z f = Fin vz"
    using assms(1) by (auto simp: finite_flake_def is_finite_iff)
  define dd where "dd = sqrt ((px + vx - vec_x hand) * (px + vx - vec_x hand)
     + (py + vy - vec_y hand) * (py + vy - vec_y hand) + (pz + vz - vec_z hand) * (pz + vz - vec_z hand))"
  have dd0: "handDetected \<Longrightarrow> dd \<noteq> 0"
    using assms(2) by (auto simp: dd_def at_point_def applyVelocity_def f sumsq_zero_iff)
  have ddnn: "0 \<le> dd" by (simp add: dd_def)
  show ?thesis
    using dd0 ddnn
    by (auto simp: updateSnowParticle_def applyVelocity_def Let_def f finite_flake_def jsqrt_Fin_sumsq
        dd_def[symmetric] simp del: jsqrt.simps)
qed

lemma updateSnowLoop_finite:
  assumes "\<forall>f\<in>set fs. finite_flake f" "distinct js" "\<forall>i\<in>set js. i < length fs"
    and "handDetected \<Longrightarrow> \<forall>i\<in>set js. \<not> at_point (applyVelocity (fs ! i)) hand"
  shows "\<exists>fs' k'. updateSnowLoop cfg rnd handDetected hand js fs k = Inr (fs', k')
           \<and> (\<forall>f\<in>set fs'. finite_flake f)"
  using assms
proof (induction js arbitrary: fs k)
  case Nil
  then show ?case by simp
next
  case (Cons i js)
  obtain f' k1 where step: "updateSnowParticle cfg rnd handDetected hand (fs ! i) k = (f', k1)"
    by (cases "updateSnowParticle cfg rnd handDetected hand (fs ! i) k")
  have i: "i < length fs" using Cons.prems(3) by simp
  have "finite_flake (fs ! i)" using Cons.prems(1) i by simp
  moreover have "handDetected \<Longrightarrow> \<not> at_point (applyVelocity (fs ! i)) hand"
    using Cons.prems(4) by simp
  ultimately have "finite_flake (fst (updateSnowParticle cfg rnd handDetected hand (fs ! i) k))"
    by (rule updateSnowParticle_finite)
  then have f': "finite_flake f'" by (simp add: step)
  have fin: "\<forall>f\<in>set (fs[i := f']). finite_flake f"
    using Cons.prems(1) f' set_update_subset_insert[of fs i f'] by auto
  have others: "handDetected \<Longrightarrow> \<forall>j\<in>set js. \<not> at_point (applyVelocity (fs[i := f'] ! j)) hand"
  proof (intro ballI)
    fix j assume hd: "handDetected" and j: "j \<in> set js"
    then have "j \<noteq> i" using Cons.prems(2) by auto
    then have "fs[i := f'] ! j = fs ! j" by simp
    then show "\<not> at_point (applyVelocity (fs[i := f'] ! j)) hand"
      using Cons.prems(4)[OF hd] j by simp
  qed
  have "\<exists>fs' k'. updateSnowLoop cfg rnd handDetected hand js (fs[i := f']) k1 = Inr (fs', k')
           \<and> (\<forall>f\<in>set fs'. finite_flake f)"
    using fin Cons.prems(2,3) others by (intro Cons.IH) auto
  then show ?case using i by (simp add: step)
qed

lemma snowWaveStep_finite:
  assumes "\<forall>f\<in>set fs. finite_flake f \<and> \<not> at_point f p"
  shows "\<forall>f\<in>set (snowWaveStep cfg p n d fs). finite_flake f \<and> \<not> at_point f p"
proof (cases "0 \<le> \<lfloor>d * real n\<rfloor> \<and> \<lfloor>d * real n\<rfloor> < int (length fs)")
  case False
  then have "readPosition fs \<lfloor>d * real n\<rfloor> = (NaN, NaN, NaN)"
    by (auto simp: readPosition_def)
  then have "snowWaveStep cfg p n d fs = fs"
    by (simp add: snowWaveStep_def)
  then show ?thesis using assms by simp
next
  case True
  define j where "j = nat \<lfloor>d * real n\<rfloor>"
  have j: "j < length fs" "\<lfloor>d * real n\<rfloor> = int j" using True by (simp_all add: j_def nat_less_iff)
  then have fj: "finite_flake (fs ! j)" "\<not> at_point (fs ! j) p" using assms by auto
  obtain px py pz vx vy vz where f: "pos_x (fs ! j) = Fin px" "pos_y (fs ! j) = Fin py"
      "pos_z (fs ! j) = Fin pz" "vel_x (fs ! j) = Fin vx" "vel_y (fs ! j) = Fin vy"
      "vel_z (fs ! j) = Fin vz"
    using fj(1) by (auto simp: finite_flake_def is_finite_iff)
  define dd where "dd = sqrt ((px - vec_x p) * (px - vec_x p) + (py - vec_y p) * (py - vec_y p)
     + (pz - vec_z p) * (pz - vec_z p))"
  have dd0: "dd \<noteq> 0"
    using fj(2) by (auto simp: dd_def at_point_def f sumsq_zero_iff)
  show ?thesis
  proof (cases "dd < snowWaveRadius cfg")
    case False
    then have "snowWaveStep cfg p n d fs = fs"
      using j by (simp add: snowWaveStep_def readPosition_def f jsqrt_Fin_sumsq Let_def
          dd_def[symmetric] del: jsqrt.simps)
    then show ?thesis using assms by simp
  next
    case True
    define g where "g = (fs ! j)\<lparr>
      vel_x := jadd (vel_x (fs ! j)) (jmul (jdiv (Fin (px - vec_x p)) (Fin dd)) (Fin (5/10))),
      vel_y := jadd (vel_y (fs ! j)) (Fin (3/10)),
      vel_z := jadd (vel_z (fs ! j)) (jmul (jdiv (Fin (pz - vec_z p)) (Fin dd)) (Fin (5/10)))\<rparr>"
    have "snowWaveStep cfg p n d fs = fs[j := g]"
      using j True by (simp add: snowWaveStep_def readPosition_def f jsqrt_sumsq Let_def
          dd_def[symmetric] g_def del: jsqrt.simps jdiv.simps jmul.simps)
    moreover have "finite_flake g \<and> \<not> at_point g p"
      using fj dd0 by (simp add: g_def finite_flake_def at_point_def f)
    ultimately show ?thesis
      using assms set_update_subset_insert[of fs j g] by auto
  qed
qed

lemma snowWaveLoop_finite:
  "\<forall>f\<in>set fs. finite_flake f \<and> \<not> at_point f p \<Longrightarrow>
   \<forall>f\<in>set (snowWaveLoop cfg p n rnd k m fs). finite_flake f \<and> \<not> at_point f p"
proof (induction m arbitrary: k fs)
  case 0
  then show ?case by simp
next
  case (Suc m)
  have "\<forall>f\<in>set (snowWaveStep cfg p n (rnd k) fs). finite_flake f \<and> \<not> at_point f p"
    using Suc.prems by (rule snowWaveStep_finite)
  then have "\<forall>f\<in>set (snowWaveLoop cfg p n rnd (Suc k) m (snowWaveStep cfg p n (rnd k) fs)).
      finite_flake f \<and> \<not> at_point f p"
    by (rule Suc.IH)
  then show ?case by simp
qed

lemma sqrt_225_4: "sqrt (225 / 4) = 15 / 2"
  by (rule real_sqrt_unique) (simp_all add: power2_eq_square)

lemma sgn_impulse: "0 < r \<Longrightarrow> sgn (a / (r / 2) * (5 / 10)) = sgn (a::real)"
  by (auto simp: sgn_real_def zero_less_divide_iff divide_less_0_iff zero_less_mult_iff
      mult_less_0_iff)

lemma timesDrawn_le: "timesDrawn rnd n k m j \<le> m"
  using length_filter_le [of "\<lambda>i. \<lfloor>rnd i * real n\<rfloor> = int j" "[k ..< k + m]"]
  by (simp add: timesDrawn_def)

text \<open>
  Claim C2, as amended. Neither \<open>updateSnowSystem\<close> nor \<open>createSnowWave\<close> tests the
  distance for zero before it divides: whenever the distance is below the radius the
  direction is \<open>dx / distance\<close>. On a field of finite particles none of which sits
  exactly on the anchor (after its velocity has been applied, for \<open>updateSnowSystem\<close>;
  as it is, for \<open>createSnowWave\<close>) both functions return a field of finite particles:
  no \<open>NaN\<close> or infinity is written into a velocity.
\<close>

theorem snow_velocity_finite_off_anchor:
  assumes "\<forall>f\<in>set fs. finite_flake f" "snowCount \<le> length fs"
  shows "((handDetected \<longrightarrow> (\<forall>f\<in>set fs. \<not> at_point (applyVelocity f) handPosition)) \<longrightarrow>
          (\<exists>fs' k'. updateSnowSystem cfg rnd (Some fs) snowCount handDetected handPosition k
                       = Inr (Some fs', k') \<and> (\<forall>f\<in>set fs'. finite_flake f)))
       \<and> ((\<forall>f\<in>set fs. \<not> at_point f origin) \<longrightarrow>
          (\<exists>fs' k'. createSnowWave cfg rnd (Some fs) snowCount origin k = (Some fs', k')
                       \<and> (\<forall>f\<in>set fs'. finite_flake f)))"
proof (intro conjI impI)
  assume h: "handDetected \<longrightarrow> (\<forall>f\<in>set fs. \<not> at_point (applyVelocity f) handPosition)"
  have "\<exists>fs' k'. updateSnowLoop cfg rnd handDetected handPosition [0 ..< snowCount] fs k
           = Inr (fs', k') \<and> (\<forall>f\<in>set fs'. finite_flake f)"
    using assms h by (intro updateSnowLoop_finite) auto
  then show "\<exists>fs' k'. updateSnowSystem cfg rnd (Some fs) snowCount handDetected handPosition k
                       = Inr (Some fs', k') \<and> (\<forall>f\<in>set fs'. finite_flake f)"
    by (auto simp: updateSnowSystem_def)
next
  assume "\<forall>f\<in>set fs. \<not> at_point f origin"
  with assms(1) have "\<forall>f\<in>set fs. finite_flake f \<and> \<not> at_point f origin" by simp
  then have "\<forall>f\<in>set (snowWaveLoop cfg origin snowCount rnd k (min 200 snowCount) fs).
               finite_flake f \<and> \<not> at_point f origin"
    by (rule snowWaveLoop_finite)
  then show "\<exists>fs' k'. createSnowWave cfg rnd (Some fs) snowCount origin k = (Some fs', k')
                       \<and> (\<forall>f\<in>set fs'. finite_flake f)"
    by (simp add: createSnowWave_def)
qed

theorem snow_velocity_finite_off_anchor_witness:
  "finite_flake (flake 4 (5/2) 3 0 (- 1/2) 0)
   \<and> \<not> at_point (applyVelocity (flake 4 (5/2) 3 0 (- 1/2) 0)) (Vector3 1 2 3)
   \<and> \<not> at_point (flake 4 (5/2) 3 0 (- 1/2) 0) (Vector3 1 2 3)
   \<and> (\<exists>fs' k'. updateSnowSystem CONFIG (\<lambda>_. 0) (Some [flake 4 (5/2) 3 0 (- 1/2) 0]) 1 True
                    (Vector3 1 2 3) 0 = Inr (Some fs', k') \<and> (\<forall>f\<in>set fs'. finite_flake f))
   \<and> (\<exists>fs' k'. createSnowWave CONFIG (\<lambda>_. 0) (Some [flake 4 (5/2) 3 0 (- 1/2) 0]) 1
                    (Vector3 1 2 3) 0 = (Some fs', k') \<and> (\<forall>f\<in>set fs'. finite_flake f))"
  using snow_velocity_finite_off_anchor [of "[flake 4 (5/2) 3 0 (- 1/2) 0]" 1 True
      "Vector3 1 2 3" CONFIG "\<lambda>_. 0" 0 "Vector3 1 2 3"]
  by (simp add: flake_def finite_flake_def at_point_def applyVelocity_def)

text \<open>
  Claim C2 as stated fails: a particle that lands exactly on the hand anchor, or sits
  exactly on the origin of a wave, has distance zero, the test \<open>distance < radius\<close>
  passes, and \<open>0 / 0\<close> is written into its horizontal velocity.
\<close>

theorem snow_zero_distance_counterexample:
  "updateSnowSystem CONFIG (\<lambda>_. 0) (Some [flake 1 (5/2) 20 0 (- 1/2) 0]) 1 True (Vector3 1 2 20) 0
     = Inr (Some [\<lparr> pos_x = Fin 1, pos_y = Fin 2, pos_z = Fin 20,
                     vel_x = NaN, vel_y = Fin (- 1/2), vel_z = NaN \<rparr>], 0)
   \<and> createSnowWave CONFIG (\<lambda>_. 0) (Some [flake 1 2 20 0 (- 1/2) 0]) 1 (Vector3 1 2 20) 0
     = (Some [\<lparr> pos_x = Fin 1, pos_y = Fin 2, pos_z = Fin 20,
                 vel_x = NaN, vel_y = Fin (- 1/5), vel_z = NaN \<rparr>], 1)"
  by (simp add: updateSnowSystem_def createSnowWave_def updateSnowParticle_def applyVelocity_def
      snowWaveStep_def readPosition_def CONFIG_def flake_def Let_def)

text \<open>
  Claim C8, as amended. For a particle at distance \<open>snowWaveRadius / 2\<close> from the origin,
  a call of \<open>createSnowWave\<close> adds the upward boost \<open>0.3\<close> and the horizontal impulse
  \<open>(dx / distance) * 0.5\<close>, \<open>(dz / distance) * 0.5\<close> once for every draw of the call
  that selects the particle; the signs of the two horizontal components are those of
  \<open>dx\<close> and \<open>dz\<close>, the direction away from the origin.
\<close>

theorem wave_impulse_at_half_radius:
  assumes "createSnowWave cfg rnd (Some fs) snowCount origin k = (Some fs', k')"
    and "j < length fs"
    and "pos_x (fs ! j) = Fin px" "pos_y (fs ! j) = Fin py" "pos_z (fs ! j) = Fin pz"
    and "vel_x (fs ! j) = Fin vx" "vel_y (fs ! j) = Fin vy" "vel_z (fs ! j) = Fin vz"
    and "sqrt ((px - vec_x origin) * (px - vec_x origin)
             + (py - vec_y origin) * (py - vec_y origin)
             + (pz - vec_z origin) * (pz - vec_z origin)) = snowWaveRadius cfg / 2"
    and "0 < snowWaveRadius cfg"
    and "c = real (timesDrawn rnd snowCount k (min 200 snowCount) j)"
    and "ix = (px - vec_x origin) / (snowWaveRadius cfg / 2) * (5 / 10)"
    and "iz = (pz - vec_z origin) / (snowWaveRadius cfg / 2) * (5 / 10)"
  shows "vel_y (fs' ! j) = Fin (vy + c * (3 / 10))
       \<and> vel_x (fs' ! j) = Fin (vx + c * ix) \<and> sgn ix = sgn (px - vec_x origin)
       \<and> vel_z (fs' ! j) = Fin (vz + c * iz) \<and> sgn iz = sgn (pz - vec_z origin)"
proof -
  have fs': "fs' = snowWaveLoop cfg origin snowCount rnd k (min 200 snowCount) fs"
    using assms(1) by (simp add: createSnowWave_def)
  have "fs' ! j = (fs ! j)\<lparr>
      vel_x := Fin (vx + real (timesDrawn rnd snowCount k (min 200 snowCount) j)
                 * ((px - vec_x origin) / (snowWaveRadius cfg / 2) * (5 / 10))),
      vel_y := Fin (vy + real (timesDrawn rnd snowCount k (min 200 snowCount) j) * (3 / 10)),
      vel_z := Fin (vz + real (timesDrawn rnd snowCount k (min 200 snowCount) j)
                 * ((pz - vec_z origin) / (snowWaveRadius cfg / 2) * (5 / 10)))\<rparr>"
    unfolding fs'
    by (rule snowWaveLoop_effect [OF assms(2-8) assms(9)[symmetric]]) (use assms(10) in simp_all)
  moreover have "sgn ix = sgn (px - vec_x origin)" "sgn iz = sgn (pz - vec_z origin)"
    unfolding assms(12,13) using assms(10) by (rule sgn_impulse)+
  ultimately show ?thesis
    by (simp add: assms(11-13))
qed

theorem wave_impulse_at_half_radius_witness:
  "vel_y (the (fst (createSnowWave CONFIG (\<lambda>_. 0) (Some [flake (9/2) 6 0 0 (- 1/2) 0]) 1
                     (Vector3 0 0 0) 0)) ! 0) = Fin (- 1/2 + 1 * (3 / 10))
   \<and> vel_x (the (fst (createSnowWave CONFIG (\<lambda>_. 0) (Some [flake (9/2) 6 0 0 (- 1/2) 0]) 1
                     (Vector3 0 0 0) 0)) ! 0) = Fin (0 + 1 * (3 / 10))"
  using wave_impulse_at_half_radius [of CONFIG "\<lambda>_. 0" "[flake (9/2) 6 0 0 (- 1/2) 0]" 1
      "Vector3 0 0 0" 0
      "snowWaveLoop CONFIG (Vector3 0 0 0) 1 (\<lambda>_. 0) 0 1 [flake (9/2) 6 0 0 (- 1/2) 0]" 1 0
      "9/2" 6 0 0 "- 1/2" 0 1 "3/10" 0]
  by (simp add: createSnowWave_def flake_def CONFIG_def timesDrawn_def sqrt_225_4)

text \<open>
  Claim C8 as stated fails: of two particles at distance \<open>snowWaveRadius / 2\<close>, with
  every draw \<open>0.5\<close>, the first is never selected and keeps its vertical velocity, and
  the second is selected twice and gains \<open>0.6\<close>.
\<close>

theorem wave_single_boost_counterexample:
  "vel_y (the (fst (createSnowWave CONFIG (\<lambda>_. 1/2)
        (Some [flake (9/2) 6 0 0 (- 1/2) 0, flake (9/2) 6 0 0 (- 1/2) 0]) 2 (Vector3 0 0 0) 0)) ! 0)
     = Fin (- 1/2)
   \<and> vel_y (the (fst (createSnowWave CONFIG (\<lambda>_. 1/2)
        (Some [flake (9/2) 6 0 0 (- 1/2) 0, flake (9/2) 6 0 0 (- 1/2) 0]) 2 (Vector3 0 0 0) 0)) ! 1)
     = Fin (- 1/2 + 3/10 + 3/10)
   \<and> Fin (- 1/2) \<noteq> Fin (- 1/2 + 3/10) \<and> Fin (- 1/2 + 3/10 + 3/10) \<noteq> Fin (- 1/2 + 3/10)"
  by (simp add: createSnowWave_def snowWaveStep_def readPosition_def flake_def CONFIG_def
      sqrt_225_4 numeral_2_eq_2 Let_def)

text \<open>
  Claim C10. \<open>createSnowWave\<close> makes \<open>min(200, snowCount)\<close> draws, each giving the index
  \<open>floor(draw * snowCount)\<close> whatever the earlier draws were. A particle within the
  radius therefore gains \<open>0.3\<close> of vertical velocity for each draw that selects it, any
  number from none to all of them, and is left as it was when no draw selects it.
\<close>

theorem wave_draws_with_replacement:
  assumes "createSnowWave cfg rnd (Some fs) snowCount origin k = (Some fs', k')"
    and "j < length fs"
    and "pos_x (fs ! j) = Fin px" "pos_y (fs ! j) = Fin py" "pos_z (fs ! j) = Fin pz"
    and "vel_x (fs ! j) = Fin vx" "vel_y (fs ! j) = Fin vy" "vel_z (fs ! j) = Fin vz"
    and "dd = sqrt ((px - vec_x origin) * (px - vec_x origin)
             + (py - vec_y origin) * (py - vec_y origin)
             + (pz - vec_z origin) * (pz - vec_z origin))"
    and "0 < dd" "dd < snowWaveRadius cfg"
  shows "k' = k + min 200 snowCount
       \<and> vel_y (fs' ! j)
           = Fin (vy + real (timesDrawn rnd snowCount k (min 200 snowCount) j) * (3 / 10))
       \<and> timesDrawn rnd snowCount k (min 200 snowCount) j \<le> min 200 snowCount
       \<and> (timesDrawn rnd snowCount k (min 200 snowCount) j = 0 \<longrightarrow> fs' ! j = fs ! j)"
proof -
  have fs': "fs' = snowWaveLoop cfg origin snowCount rnd k (min 200 snowCount) fs"
    and k': "k' = k + min 200 snowCount"
    using assms(1) by (simp_all add: createSnowWave_def)
  have eff: "fs' ! j = (fs ! j)\<lparr>
      vel_x := Fin (vx + real (timesDrawn rnd snowCount k (min 200 snowCount) j)
                 * ((px - vec_x origin) / dd * (5 / 10))),
      vel_y := Fin (vy + real (timesDrawn rnd snowCount k (min 200 snowCount) j) * (3 / 10)),
      vel_z := Fin (vz + real (timesDrawn rnd snowCount k (min 200 snowCount) j)
                 * ((pz - vec_z origin) / dd * (5 / 10)))\<rparr>"
    unfolding fs' by (rule snowWaveLoop_effect [OF assms(2-11)])
  have "timesDrawn rnd snowCount k (min 200 snowCount) j = 0 \<longrightarrow> fs' ! j = fs ! j"
    using assms(6-8) by (simp add: eff)
  then show ?thesis
    using k' timesDrawn_le [of rnd snowCount k "min 200 snowCount" j] by (simp add: eff)
qed

theorem wave_draws_with_replacement_witness:
  "vel_y (the (fst (createSnowWave CONFIG (\<lambda>_. 0)
        (Some [flake 3 4 0 0 (- 1/2) 0, flake 0 3 4 0 (- 1/2) 0]) 2 (Vector3 0 0 0) 0)) ! 0)
     = Fin (- 1/2 + 2 * (3 / 10))
   \<and> the (fst (createSnowWave CONFIG (\<lambda>_. 0)
        (Some [flake 3 4 0 0 (- 1/2) 0, flake 0 3 4 0 (- 1/2) 0]) 2 (Vector3 0 0 0) 0)) ! 1
     = flake 0 3 4 0 (- 1/2) 0"
proof -
  let ?fs = "[flake 3 4 0 0 (- 1/2) 0, flake 0 3 4 0 (- 1/2) 0]"
  let ?fs' = "snowWaveLoop CONFIG (Vector3 0 0 0) 2 (\<lambda>_. 0) 0 (min 200 2) ?fs"
  have run: "createSnowWave CONFIG (\<lambda>_. 0) (Some ?fs) 2 (Vector3 0 0 0) 0
               = (Some ?fs', 0 + min 200 2)"
    by (simp add: createSnowWave_def del: snowWaveLoop.simps)
  have t0: "timesDrawn (\<lambda>_. 0) 2 0 2 0 = 2"
    and t1: "timesDrawn (\<lambda>_. 0) 2 0 2 1 = 0" "timesDrawn (\<lambda>_. 0) 2 0 2 (Suc 0) = 0"
    by (simp_all add: timesDrawn_def upt_conv_Cons del: upt_Suc)
  have r: "(5::real) < snowWaveRadius CONFIG" by (simp add: CONFIG_def)
  have "vel_y (?fs' ! 0) = Fin (- 1/2 + 2 * (3 / 10))"
    using wave_draws_with_replacement [OF run, of 0 3 4 0 0 "- 1/2" 0 5] r
    by (simp add: flake_def sqrt_25 t0 del: snowWaveLoop.simps)
  moreover have "?fs' ! 1 = flake 0 3 4 0 (- 1/2) 0"
    using wave_draws_with_replacement [OF run, of 1 0 3 4 0 "- 1/2" 0 5] r
    by (simp add: flake_def sqrt_25 t1 del: snowWaveLoop.simps)
  ultimately show ?thesis
    by (simp add: createSnowWave_def del: snowWaveLoop.simps)
qed

section \<open>Placement: proofs\<close>

lemma randomInSphere_inside:
  assumes "randomInSphere radius rnd k = Some y"
  shows "norm_sq (fst y) \<le> radius * radius"
  by (rule randomInSphere.raw_induct
        [where P = "\<lambda>radius rnd k y. norm_sq (fst y) \<le> radius * radius", OF _ assms])
     (auto simp: Let_def norm_sq_def split: if_splits)

lemma scatterLoop_inside:
  assumes "scatterLoop radius rnd k = Some y"
  shows "norm_sq (fst y) \<le> radius * radius"
  by (rule scatterLoop.raw_induct
        [where P = "\<lambda>radius rnd k y. norm_sq (fst y) \<le> radius * radius", OF _ assms])
     (auto simp: Let_def norm_sq_def split: if_splits)

text \<open>
  The loops return as soon as a candidate is accepted: if the candidate of some round
  \<open>n\<close> lies in the sphere, both give a result.
\<close>

lemma randomInSphere_returns:
  "norm_sq (candidate radius rnd (k + 3 * n)) \<le> radius * radius \<Longrightarrow>
   \<exists>y. randomInSphere radius rnd k = Some y"
proof (induction n arbitrary: k)
  case 0
  then show ?case
    by (subst randomInSphere.simps) (simp add: candidate_def norm_sq_def Let_def not_less)
next
  case (Suc n)
  have "k + 3 * Suc n = (k + 3) + 3 * n" by simp
  then have "norm_sq (candidate radius rnd ((k + 3) + 3 * n)) \<le> radius * radius"
    using Suc.prems by (simp add: add.assoc)
  then have "\<exists>y. randomInSphere radius rnd (k + 3) = Some y"
    by (rule Suc.IH)
  then show ?case
    by (subst randomInSphere.simps) (simp add: Let_def)
qed

lemma scatterLoop_returns:
  "norm_sq (candidate radius rnd (k + 3 * n)) \<le> radius * radius \<Longrightarrow>
   \<exists>y. scatterLoop radius rnd k = Some y"
proof (induction n arbitrary: k)
  case 0
  then show ?case
    by (subst scatterLoop.simps) (simp add: candidate_def norm_sq_def Let_def not_less)
next
  case (Suc n)
  have "k + 3 * Suc n = (k + 3) + 3 * n" by simp
  then have "norm_sq (candidate radius rnd ((k + 3) + 3 * n)) \<le> radius * radius"
    using Suc.prems by (simp add: add.assoc)
  then have "\<exists>y. scatterLoop radius rnd (k + 3) = Some y"
    by (rule Suc.IH)
  then show ?case
    by (subst scatterLoop.simps) (simp add: Let_def)
qed

text \<open>
  Claim C6. Whatever the draws, a vector that \<open>calculateScatterPosition\<close> or
  \<open>randomInSphere\<close> returns has squared norm at most the square of the radius.
\<close>

theorem scatter_position_inside_sphere:
  "(calculateScatterPosition cfg rnd k = Some (v, k')
      \<longrightarrow> norm_sq v \<le> scatterRadius cfg * scatterRadius cfg)
   \<and> (randomInSphere radius rnd k = Some (w, k'') \<longrightarrow> norm_sq w \<le> radius * radius)"
  using scatterLoop_inside [of "scatterRadius cfg" rnd k "(v, k')"]
    randomInSphere_inside [of radius rnd k "(w, k'')"]
  by (simp add: calculateScatterPosition_def)

theorem scatter_position_inside_sphere_witness:
  "calculateScatterPosition CONFIG (\<lambda>n. if n < 3 then 99 / 100 else 1 / 4) 0
     = Some (Vector3 (- 25) (- 25) (- 25), 6)
   \<and> norm_sq (Vector3 (- 25) (- 25) (- 25)) \<le> scatterRadius CONFIG * scatterRadius CONFIG
   \<and> randomInSphere 50 (\<lambda>n. if n < 3 then 99 / 100 else 1 / 4) 0
     = Some (Vector3 (- 25) (- 25) (- 25), 6)
   \<and> norm_sq (Vector3 (- 25) (- 25) (- 25)) \<le> 50 * 50"
proof -
  let ?rnd = "\<lambda>n::nat. if n < 3 then 99 / 100 else (1 / 4 :: real)"
  have a: "scatterLoop 50 ?rnd 0 = Some (Vector3 (- 25) (- 25) (- 25), 6)"
    by (subst scatterLoop.simps, simp, subst scatterLoop.simps, simp)
  have b: "randomInSphere 50 ?rnd 0 = Some (Vector3 (- 25) (- 25) (- 25), 6)"
    by (subst randomInSphere.simps, simp, subst randomInSphere.simps, simp)
  have c: "calculateScatterPosition CONFIG ?rnd 0 = Some (Vector3 (- 25) (- 25) (- 25), 6)"
    using a by (simp add: calculateScatterPosition_def CONFIG_def)
  show ?thesis
    using scatter_position_inside_sphere [of CONFIG ?rnd 0 "Vector3 (- 25) (- 25) (- 25)" 6
        50 "Vector3 (- 25) (- 25) (- 25)" 6] b c
    by simp
qed

lemma calculateTreePosition_returns:
  assumes "0 < n" "treeHeight cfg \<noteq> 0"
  shows "\<exists>p. calculateTreePosition i n cfg rnd k = Some (p, k + 2)
           \<and> vec_y p = (real i / real n) powr (17 / 10) * treeHeight cfg - treeHeight cfg / 2"
  using assms by (simp add: calculateTreePosition_def Let_def)

text \<open>
  Claim C7. For a positive tree height and a positive total, \<open>calculateTreePosition\<close>
  returns a position whose height is \<open>(index / total)^1.7 * H - H / 2\<close>, whatever the
  random draws, and of two such calls the one with the larger \<open>index / total\<close> never
  returns the smaller height.
\<close>

theorem tree_height_monotone:
  assumes "0 < treeHeight cfg" "0 < n1" "0 < n2"
    and "real i1 / real n1 \<le> real i2 / real n2"
  shows "\<exists>p1 p2. calculateTreePosition i1 n1 cfg rnd1 k1 = Some (p1, k1 + 2)
           \<and> calculateTreePosition i2 n2 cfg rnd2 k2 = Some (p2, k2 + 2)
           \<and> vec_y p1 = (real i1 / real n1) powr (17 / 10) * treeHeight cfg - treeHeight cfg / 2
           \<and> vec_y p2 = (real i2 / real n2) powr (17 / 10) * treeHeight cfg - treeHeight cfg / 2
           \<and> vec_y p1 \<le> vec_y p2"
proof -
  have h: "treeHeight cfg \<noteq> 0" using assms(1) by simp
  obtain p1 where p1: "calculateTreePosition i1 n1 cfg rnd1 k1 = Some (p1, k1 + 2)"
    "vec_y p1 = (real i1 / real n1) powr (17 / 10) * treeHeight cfg - treeHeight cfg / 2"
    using calculateTreePosition_returns [OF assms(2) h] by blast
  obtain p2 where p2: "calculateTreePosition i2 n2 cfg rnd2 k2 = Some (p2, k2 + 2)"
    "vec_y p2 = (real i2 / real n2) powr (17 / 10) * treeHeight cfg - treeHeight cfg / 2"
    using calculateTreePosition_returns [OF assms(3) h] by blast
  have "0 \<le> real i1 / real n1" by simp
  then have "(real i1 / real n1) powr (17 / 10) \<le> (real i2 / real n2) powr (17 / 10)"
    using assms(4) by (intro powr_mono2) simp_all
  then have "(real i1 / real n1) powr (17 / 10) * treeHeight cfg
      \<le> (real i2 / real n2) powr (17 / 10) * treeHeight cfg"
    using assms(1) by (intro mult_right_mono) simp_all
  then have "vec_y p1 \<le> vec_y p2" using p1(2) p2(2) by simp
  then show ?thesis using p1 p2 by blast
qed

theorem tree_height_monotone_witness:
  "\<exists>p1 p2. calculateTreePosition 100 400 CONFIG (\<lambda>_. 0) 5 = Some (p1, 7)
     \<and> calculateTreePosition 200 400 CONFIG (\<lambda>_. 1 / 2) 7 = Some (p2, 9)
     \<and> vec_y p1 = (1 / 4) powr (17 / 10) * 20 - 10
     \<and> vec_y p2 = (1 / 2) powr (17 / 10) * 20 - 10
     \<and> vec_y p1 \<le> vec_y p2"
  using tree_height_monotone [of CONFIG 400 400 100 200 "\<lambda>_. 0" 5 "\<lambda>_. 1 / 2" 7]
  by (simp add: CONFIG_def)

section \<open>Gesture classifier: proofs\<close>

lemma fold_fingers:
  "fold f [1 ..< 5] n0 = f 4 (f 3 (f 2 (f (1::nat) n0)))"
  by (simp add: upt_conv_Cons eval_nat_numeral del: upt_Suc)

text \<open>
  Claim C5. On a frame of 21 landmarks the thumb counts when the horizontal distance of
  its tip (landmark 4) from the wrist (landmark 0) exceeds 0.1, each of the four fingers
  counts when its tip (8, 12, 16, 20) has a \<open>y\<close> below that of its PIP joint
  (6, 10, 14, 18) minus 0.02, and the result is \<open>Open\<close> for a count of at least 4,
  \<open>Fist\<close> for a count of at most 1 and \<open>Partial\<close> otherwise. In particular four
  extended fingers with the thumb give \<open>Open\<close>, and no extended finger gives \<open>Fist\<close>.
\<close>

theorem detectGesture_by_count:
  assumes "length landmarks = 21"
    and "thumb = (\<bar>lm_x (landmarks ! 4) - lm_x (landmarks ! 0)\<bar> > 1 / 10)"
    and "index = (lm_y (landmarks ! 8) < lm_y (landmarks ! 6) - 2 / 100)"
    and "middle = (lm_y (landmarks ! 12) < lm_y (landmarks ! 10) - 2 / 100)"
    and "ring = (lm_y (landmarks ! 16) < lm_y (landmarks ! 14) - 2 / 100)"
    and "pinky = (lm_y (landmarks ! 20) < lm_y (landmarks ! 18) - 2 / 100)"
    and "n = length (filter id [thumb, index, middle, ring, pinky])"
  shows "detectGesture landmarks
           = Inr (if n \<ge> 4 then Open else if n \<le> 1 then Fist else Partial)
       \<and> (thumb \<and> index \<and> middle \<and> ring \<and> pinky \<longrightarrow> detectGesture landmarks = Inr Open)
       \<and> (\<not> thumb \<and> \<not> index \<and> \<not> middle \<and> \<not> ring \<and> \<not> pinky
            \<longrightarrow> detectGesture landmarks = Inr Fist)"
proof -
  have "detectGesture landmarks
          = Inr (if n \<ge> 4 then Open else if n \<le> 1 then Fist else Partial)"
    unfolding detectGesture_def fold_fingers Let_def
    using assms by (simp add: fingerTips_def fingerPIPs_def)
  then show ?thesis
    using assms(7) by auto
qed

theorem detectGesture_by_count_witness:
  "detectGesture openFrame = Inr Open \<and> detectGesture fistFrame = Inr Fist
   \<and> detectGesture partialFrame = Inr Partial"
  using detectGesture_by_count [of openFrame True True True True True 5]
    detectGesture_by_count [of fistFrame False False False False False 0]
    detectGesture_by_count [of partialFrame False True True False False 2]
  by (simp add: openFrame_def fistFrame_def partialFrame_def restLandmark_def)


lemma env_ok_tick:
  assumes "env_ok e"
  shows "t - tickGap e < lastTick e t" "lastTick e t \<le> t"
    "x \<le> nextTick e x" "nextTick e x < x + tickGap e"
    "x \<le> timerFire e x" "timerFire e x \<le> x + timerLag e"
    "tickGap e \<le> 500" "0 < tickGap e" "0 \<le> timerLag e"
proof -
  show a: "t - tickGap e < lastTick e t" and b: "lastTick e t \<le> t"
    and "x \<le> nextTick e x" and "nextTick e x < x + tickGap e"
    and c: "x \<le> timerFire e x" and d: "timerFire e x \<le> x + timerLag e"
    and "tickGap e \<le> 500"
    using assms by (simp_all add: env_ok_def)
  show "0 < tickGap e" using a b by linarith
  show "0 \<le> timerLag e" using c d by linarith
qed

lemma tweenDone_bounds:
  assumes "env_ok e"
  shows "c + duration - tickGap e < tweenDone e c duration"
    and "tweenDone e c duration < c + duration + tickGap e"
proof -
  note k = env_ok_tick [OF assms]
  have "lastTick e c + duration \<le> tweenDone e c duration"
    unfolding tweenDone_def by (rule k(3))
  then show "c + duration - tickGap e < tweenDone e c duration"
    using k(1) [of c] by linarith
  have "tweenDone e c duration < lastTick e c + duration + tickGap e"
    unfolding tweenDone_def by (rule k(4))
  then show "tweenDone e c duration < c + duration + tickGap e"
    using k(2) [of c] by linarith
qed

lemma round6_near: "\<bar>round6 x - x\<bar> \<le> 5 / 10000000"
proof -
  define y where "y = x * 1000000 + 1 / 2"
  have "real_of_int \<lfloor>y\<rfloor> \<le> y" "y < real_of_int \<lfloor>y\<rfloor> + 1" by linarith+
  then have "real_of_int \<lfloor>y\<rfloor> / 1000000 - x \<le> 5 / 10000000"
    and "- (5 / 10000000) \<le> real_of_int \<lfloor>y\<rfloor> / 1000000 - x"
    unfolding y_def by linarith+
  then have "\<bar>real_of_int \<lfloor>y\<rfloor> / 1000000 - x\<bar> \<le> 5 / 10000000"
    by (rule abs_leI [OF _ iffD1 [OF minus_le_iff]])
  then show ?thesis unfolding round6_def y_def .
qed

lemma near_round6v: "near (round6v v) v"
  unfolding near_def round6v_def vec3.sel
  by (intro conjI round6_near)

lemma lerp_end [simp]: "lerp a b 1 = b"
  by (simp add: lerp_def)

lemma earliest_in_set: "earliest ts = Some tm \<Longrightarrow> tm \<in> set ts"
  by (induction ts arbitrary: tm) (auto split: option.splits if_splits)

lemma nextDue_in_set: "nextDue t ts = Some tm \<Longrightarrow> tm \<in> set ts \<and> fst tm \<le> t"
  using earliest_in_set [of "filter (\<lambda>tm. fst tm \<le> t) ts" tm] by (auto simp: nextDue_def)

lemma nextDue_Nil [simp]: "nextDue t [] = None"
  by (simp add: nextDue_def)

lemma nextDue_single [simp]: "nextDue t [tm] = (if fst tm \<le> t then Some tm else None)"
  by (simp add: nextDue_def)

lemma advance_idle: "timers s = [] \<Longrightarrow> advance e cfg t s = s\<lparr> now := max (now s) t \<rparr>"
  by (subst advance.simps) simp

lemma advance_single_later:
  "timers s = [tm] \<Longrightarrow> t < fst tm \<Longrightarrow> advance e cfg t s = s\<lparr> now := max (now s) t \<rparr>"
  by (subst advance.simps) simp

lemma advance_single_due:
  "timers s = [tm] \<Longrightarrow> fst tm \<le> t \<Longrightarrow>
   advance e cfg t s = advance e cfg t (fireTimer e cfg tm s)"
  by (subst advance.simps) simp

lemma fireTimer_keeps:
  "ornaments (fireTimer e cfg tm s) = ornaments s"
  "isGathered (fireTimer e cfg tm s) = isGathered s"
  "lastGesture (fireTimer e cfg tm s) = lastGesture s"
  "lastGestureTime (fireTimer e cfg tm s) = lastGestureTime s"
  "rngPos (fireTimer e cfg tm s) = rngPos s"
  "now s \<le> now (fireTimer e cfg tm s)"
  by (cases "snd tm"; simp add: fireTimer_def fire_def resume_def setTimeout_def
        split: option.splits)+

lemma advance_keeps:
  "ornaments (advance e cfg t s) = ornaments s
   \<and> isGathered (advance e cfg t s) = isGathered s
   \<and> lastGesture (advance e cfg t s) = lastGesture s
   \<and> lastGestureTime (advance e cfg t s) = lastGestureTime s
   \<and> rngPos (advance e cfg t s) = rngPos s
   \<and> now s \<le> now (advance e cfg t s)"
proof (induction e cfg t s rule: advance.induct)
  case (1 e cfg t s)
  show ?case
  proof (cases "nextDue t (timers s)")
    case None
    then show ?thesis by (subst (1 2 3 4 5 6) advance.simps) simp
  next
    case (Some tm)
    have "now s \<le> now (fireTimer e cfg tm s)" by (rule fireTimer_keeps)
    then show ?thesis
      using "1.IH" [OF Some] Some
      by (subst (1 2 3 4 5 6) advance.simps) (simp add: fireTimer_keeps(1-5))
  qed
qed

lemma reenable_timeline:
  assumes "timers s = [(c, Reenable g)]"
  shows "animating (advance e cfg t s) = (animating s \<and> t < c)"
proof (cases "t < c")
  case True
  then show ?thesis using assms by (simp add: advance_single_later)
next
  case False
  have "timers (fireTimer e cfg (c, Reenable g) s) = []"
    and "\<not> animating (fireTimer e cfg (c, Reenable g) s)"
    using assms by (simp_all add: fireTimer_def fire_def)
  then have "\<not> animating (advance e cfg t (fireTimer e cfg (c, Reenable g) s))"
    by (simp add: advance_idle)
  then show ?thesis
    using False assms advance_single_due [of s "(c, Reenable g)" t e cfg] by simp
qed

lemma fade_timeline:
  assumes "env_ok e" "timers s = [(b, cb)]"
    and "cb = RibbonFadeInDone (Some g) \<or> cb = RibbonFadeOutDone (Some g)"
    and "now s \<le> b" "animating s"
  shows "animating (advance e cfg t s)
           = (t < timerFire e (b + max 0 (animationDuration cfg * 1000)))"
proof (cases "t < b")
  case True
  have "b + max 0 (animationDuration cfg * 1000)
      \<le> timerFire e (b + max 0 (animationDuration cfg * 1000))"
    by (rule env_ok_tick(5) [OF assms(1)])
  then have "t < timerFire e (b + max 0 (animationDuration cfg * 1000))"
    using True by linarith
  then show ?thesis using True assms by (simp add: advance_single_later)
next
  case False
  let ?s' = "fireTimer e cfg (b, cb) s"
  have "timers ?s' = [(timerFire e (b + max 0 (animationDuration cfg * 1000)), Reenable g)]"
    and "animating ?s'"
    using assms by (auto simp: fireTimer_def fire_def resume_def setTimeout_def max_def)
  then have "animating (advance e cfg t ?s')
      = (t < timerFire e (b + max 0 (animationDuration cfg * 1000)))"
    using reenable_timeline
      [of ?s' "timerFire e (b + max 0 (animationDuration cfg * 1000))" g e cfg t]
    by simp
  then show ?thesis
    using False assms(2) advance_single_due [of s "(b, cb)" t e cfg] by simp
qed

lemma reveal_timeline:
  assumes "env_ok e" "timers s = [(a, RibbonReveal (Some g))]"
    and "now s \<le> a" "animating s"
  shows "animating (advance e cfg t s)
           = (t < timerFire e (tweenDone e a 500 + max 0 (animationDuration cfg * 1000)))"
proof -
  let ?z = "timerFire e (tweenDone e a 500 + max 0 (animationDuration cfg * 1000))"
  have dn: "a \<le> tweenDone e a 500"
    using tweenDone_bounds(1) [OF assms(1), of a 500] env_ok_tick(7) [OF assms(1)] by linarith
  have "tweenDone e a 500 + max 0 (animationDuration cfg * 1000) \<le> ?z"
    by (rule env_ok_tick(5) [OF assms(1)])
  then have az: "a \<le> ?z" using dn by linarith
  show ?thesis
  proof (cases "t < a")
    case True
    then have "t < ?z" using az by linarith
    then show ?thesis using True assms by (simp add: advance_single_later)
  next
    case False
    let ?s' = "fireTimer e cfg (a, RibbonReveal (Some g)) s"
    have "timers ?s' = [(tweenDone e a 500, RibbonFadeInDone (Some g))]" and "animating ?s'"
      and "now ?s' \<le> tweenDone e a 500"
      using assms dn by (auto simp: fireTimer_def fire_def max_def)
    then have "animating (advance e cfg t ?s') = (t < ?z)"
      using fade_timeline
        [OF assms(1), of ?s' "tweenDone e a 500" "RibbonFadeInDone (Some g)" g cfg t]
      by simp
    then show ?thesis
      using False assms(2) advance_single_due [of s "(a, RibbonReveal (Some g))" t e cfg]
      by simp
  qed
qed

lemma gatherClear_bounds:
  assumes "env_ok e" "0 \<le> animationDuration cfg"
  shows "c + animationDuration cfg * 1500 + 500 - tickGap e < gatherClear e cfg c"
    and "gatherClear e cfg c < c + animationDuration cfg * 1500 + 500 + tickGap e + 2 * timerLag e"
proof -
  let ?d = "animationDuration cfg"
  let ?r = "timerFire e (c + ?d * 500)"
  let ?f = "tweenDone e ?r 500"
  note k = env_ok_tick [OF assms(1)]
  have g: "gatherClear e cfg c = timerFire e (?f + ?d * 1000)"
    using assms(2) by (simp add: gatherClear_def max_def)
  have r: "c + ?d * 500 \<le> ?r" "?r \<le> c + ?d * 500 + timerLag e"
    by (rule k(5), rule k(6))
  have f: "?r + 500 - tickGap e < ?f" "?f < ?r + 500 + tickGap e"
    by (rule tweenDone_bounds [OF assms(1)])+
  have z: "?f + ?d * 1000 \<le> timerFire e (?f + ?d * 1000)"
    "timerFire e (?f + ?d * 1000) \<le> ?f + ?d * 1000 + timerLag e"
    by (rule k(5), rule k(6))
  show "c + ?d * 1500 + 500 - tickGap e < gatherClear e cfg c"
    unfolding g using r f z by linarith
  show "gatherClear e cfg c < c + ?d * 1500 + 500 + tickGap e + 2 * timerLag e"
    unfolding g using r f z by linarith
qed


lemma length_gatherOrnaments [simp]: "length (gatherOrnaments cfg tk k ms) = length ms"
  by (induction ms arbitrary: k) simp_all

lemma gatherOrnaments_nth:
  "i < length ms \<Longrightarrow>
   gatherOrnaments cfg tk k ms ! i =
     (ms ! i)\<lparr> tweens := \<lparr> tw_start = tk + real (k + i) * 2,
                             tw_duration = animationDuration cfg * 1000,
                             tw_ease = animationEase cfg,
                             tw_to = treePosition (ms ! i) \<rparr> # tweens (ms ! i) \<rparr>"
proof (induction ms arbitrary: k i)
  case Nil
  then show ?case by simp
next
  case (Cons m ms)
  show ?case
  proof (cases i)
    case 0
    then show ?thesis by simp
  next
    case (Suc j)
    then have "j < length ms" using Cons.prems by simp
    then show ?thesis using Suc Cons.IH [of j "k + 1"] by simp
  qed
qed

text \<open>
  Ornament \<open>i\<close> of a gather requested at \<open>c\<close> holds its target, as rounded by the tween,
  from the first tick at which the ticker has counted its delay and the duration; that
  tick comes less than \<open>tickGap\<close> after \<open>c + 2 * i + 1000 * animationDuration\<close>.
\<close>

lemma gathered_position:
  assumes "env_ok e" "i < length ms" "0 \<le> animationDuration cfg"
    and "c + real i * 2 + animationDuration cfg * 1000 + tickGap e \<le> t"
  shows "meshPosition e (gatherOrnaments cfg (lastTick e c) 0 ms ! i) t
           = round6v (treePosition (ms ! i))"
proof -
  note k = env_ok_tick [OF assms(1)]
  have "lastTick e c \<le> c" by (rule k(2))
  moreover have "t - tickGap e < lastTick e t" by (rule k(1))
  ultimately have "lastTick e c + real i * 2 + animationDuration cfg * 1000 \<le> lastTick e t"
    using assms(4) by linarith
  moreover have "lastTick e c + real i * 2 \<le> lastTick e c + real i * 2 + animationDuration cfg * 1000"
    using assms(3) by simp
  ultimately show ?thesis
    using assms(2) by (simp add: gatherOrnaments_nth meshPosition_def)
qed

lemma transitionState_gather:
  "\<not> animating s \<Longrightarrow>
   transitionState e True cfg rnd s =
     Some (s\<lparr> animating := True, btnDisabled := True,
               ornaments := gatherOrnaments cfg (lastTick e (now s)) 0 (ornaments s),
               timers := timers s @ [(timerFire e (now s + max 0 (animationDuration cfg * 500)),
                                      RibbonReveal (Some True))] \<rparr>)"
  by (simp add: transitionState_def gatherAll_def setTimeout_def)

lemma gather_returns: "\<exists>s1. transitionState e True cfg rnd s = Some s1"
  by (simp add: transitionState_def)

lemma gather_timeline:
  assumes "env_ok e" "quiescent s0"
    and "transitionState e True cfg rnd s0 = Some s1"
  shows "animating (advance e cfg t s1) = (t < gatherClear e cfg (now s0))"
    and "ornaments (advance e cfg t s1) = gatherOrnaments cfg (lastTick e (now s0)) 0 (ornaments s0)"
    and "isGathered (advance e cfg t s1) = isGathered s0"
proof -
  let ?a = "timerFire e (now s0 + max 0 (animationDuration cfg * 500))"
  have s1: "s1 = s0\<lparr> animating := True, btnDisabled := True,
               ornaments := gatherOrnaments cfg (lastTick e (now s0)) 0 (ornaments s0),
               timers := [(?a, RibbonReveal (Some True))] \<rparr>"
    using assms by (simp add: transitionState_gather quiescent_def)
  have "now s0 + max 0 (animationDuration cfg * 500) \<le> ?a"
    by (rule env_ok_tick(5) [OF assms(1)])
  then have "now s1 \<le> ?a" by (simp add: s1)
  moreover have "timers s1 = [(?a, RibbonReveal (Some True))]" "animating s1"
    by (simp_all add: s1)
  ultimately show "animating (advance e cfg t s1) = (t < gatherClear e cfg (now s0))"
    unfolding gatherClear_def by (intro reveal_timeline [OF assms(1)])
  show "ornaments (advance e cfg t s1) = gatherOrnaments cfg (lastTick e (now s0)) 0 (ornaments s0)"
    and "isGathered (advance e cfg t s1) = isGathered s0"
    by (simp_all add: advance_keeps s1)
qed

lemma scatterAll_shape:
  "scatterAll e cfg rnd c s = Some s' \<Longrightarrow>
   \<exists>ms k. s' = s\<lparr> ornaments := ms, rngPos := k,
                   timers := timers s @ [(tweenDone e (now s) 300, RibbonFadeOutDone c)] \<rparr>"
  by (auto simp: scatterAll_def split: option.splits)

lemma env_ok_steadyEnv: "env_ok steadyEnv"
proof -
  have a: "t - 16 < 16 * real_of_int \<lfloor>t / 16\<rfloor>" "16 * real_of_int \<lfloor>t / 16\<rfloor> \<le> t" for t :: real
    by linarith+
  have b: "x \<le> 16 * real_of_int \<lceil>x / 16\<rceil>" "16 * real_of_int \<lceil>x / 16\<rceil> < x + 16" for x :: real
    by linarith+
  show ?thesis
    unfolding env_ok_def steadyEnv_def by (simp add: a b)
qed

lemma quiescent_restingApp [simp]: "quiescent (restingApp ms t)"
  by (simp add: quiescent_def restingApp_def)

lemma restingApp_sel [simp]:
  "now (restingApp ms t) = t" "ornaments (restingApp ms t) = ms"
  "isGathered (restingApp ms t) = False" "animating (restingApp ms t) = False"
  "timers (restingApp ms t) = []" "lastGesture (restingApp ms t) = None"
  "lastGestureTime (restingApp ms t) = 0"
  by (simp_all add: restingApp_def)

lemma steadyEnv_sel [simp]:
  "tickGap steadyEnv = 16" "timerLag steadyEnv = 1"
  "lastTick steadyEnv t = 16 * real_of_int \<lfloor>t / 16\<rfloor>"
  "nextTick steadyEnv x = 16 * real_of_int \<lceil>x / 16\<rceil>"
  "timerFire steadyEnv x = x + 1"
  by (simp_all add: steadyEnv_def)

lemma gatherClear_steady: "gatherClear steadyEnv CONFIG 0 = 3209"
  by (simp add: gatherClear_def tweenDone_def CONFIG_def)


text \<open>
  Claim C3, as amended. A gather request in a state where nothing is pending returns, and
  its guard is cleared \<open>1.5 * animationDuration + 0.5\<close> seconds later (the ribbon's timer
  at half the duration, its fade of 0.5 seconds, then a timer of the duration), give or
  take a frame and the lateness of the two timers: the guard is true up to a frame
  before that moment and false from a frame and twice the timer lag after it. Ornament
  \<open>i\<close> is within tween tolerance of its tree position, holding it as the tween rounds it,
  from a frame after \<open>animationDuration + 0.002 * i\<close> seconds. When the largest delay
  \<open>0.002 * (n - 1)\<close> and two frames fit into \<open>0.5 * animationDuration + 0.5\<close> seconds, as
  for 400 ornaments and a duration of 1.8, the guard is not cleared before the duration
  and the largest delay have elapsed, and whenever the guard is false every ornament is
  within tween tolerance of its tree position.
\<close>

theorem gather_completes:
  assumes "env_ok e" "quiescent s0" "0 < animationDuration cfg"
    and "n = length (ornaments s0)"
    and "clear = now s0 + animationDuration cfg * 1500 + 500"
    and "arrive = (\<lambda>i. now s0 + real i * 2 + animationDuration cfg * 1000)"
  shows "\<exists>s1. transitionState e True cfg rnd s0 = Some s1
       \<and> (\<forall>t. (t \<le> clear - tickGap e \<longrightarrow> animating (advance e cfg t s1))
            \<and> (clear + tickGap e + 2 * timerLag e \<le> t \<longrightarrow> \<not> animating (advance e cfg t s1))
            \<and> (\<forall>i<n. arrive i + tickGap e \<le> t \<longrightarrow>
                  meshPosition e (ornaments (advance e cfg t s1) ! i) t
                    = round6v (treePosition (ornaments s0 ! i))
                  \<and> near (meshPosition e (ornaments (advance e cfg t s1) ! i) t)
                         (treePosition (ornaments s0 ! i)))
            \<and> (real (n - 1) * 2 + 2 * tickGap e \<le> animationDuration cfg * 500 + 500 \<longrightarrow>
                 (t \<le> arrive (n - 1) \<longrightarrow> animating (advance e cfg t s1))
               \<and> (\<not> animating (advance e cfg t s1) \<longrightarrow>
                    (\<forall>i<n. near (meshPosition e (ornaments (advance e cfg t s1) ! i) t)
                                (treePosition (ornaments s0 ! i))))))"
proof -
  obtain s1 where s1: "transitionState e True cfg rnd s0 = Some s1"
    using gather_returns by blast
  note k = env_ok_tick [OF assms(1)]
  have d: "0 \<le> animationDuration cfg" using assms(3) by simp
  have guard: "animating (advance e cfg t s1) = (t < gatherClear e cfg (now s0))" for t
    by (rule gather_timeline(1) [OF assms(1,2) s1])
  have lo: "clear - tickGap e < gatherClear e cfg (now s0)"
    unfolding assms(5) by (rule gatherClear_bounds(1) [OF assms(1) d])
  have hi: "gatherClear e cfg (now s0) < clear + tickGap e + 2 * timerLag e"
    unfolding assms(5) by (rule gatherClear_bounds(2) [OF assms(1) d])
  have orn: "ornaments (advance e cfg t s1)
      = gatherOrnaments cfg (lastTick e (now s0)) 0 (ornaments s0)" for t
    by (rule gather_timeline(2) [OF assms(1,2) s1])
  have pos: "meshPosition e (ornaments (advance e cfg t s1) ! i) t
      = round6v (treePosition (ornaments s0 ! i))"
    if "i < n" "arrive i + tickGap e \<le> t" for i t
    unfolding orn using that d
    by (intro gathered_position [OF assms(1)]) (simp_all add: assms(4,6))
  have close: "near (meshPosition e (ornaments (advance e cfg t s1) ! i) t)
      (treePosition (ornaments s0 ! i))"
    if "i < n" "arrive i + tickGap e \<le> t" for i t
    unfolding pos [OF that] by (rule near_round6v)
  have late: "arrive i + tickGap e \<le> clear - tickGap e"
    if "i < n" "real (n - 1) * 2 + 2 * tickGap e \<le> animationDuration cfg * 500 + 500" for i
  proof -
    have "real i \<le> real (n - 1)" using that(1) by simp
    then show ?thesis using that(2) unfolding assms(5,6) by linarith
  qed
  have "(t \<le> clear - tickGap e \<longrightarrow> animating (advance e cfg t s1))
      \<and> (clear + tickGap e + 2 * timerLag e \<le> t \<longrightarrow> \<not> animating (advance e cfg t s1))
      \<and> (\<forall>i<n. arrive i + tickGap e \<le> t \<longrightarrow>
            meshPosition e (ornaments (advance e cfg t s1) ! i) t
              = round6v (treePosition (ornaments s0 ! i))
            \<and> near (meshPosition e (ornaments (advance e cfg t s1) ! i) t)
                   (treePosition (ornaments s0 ! i)))
      \<and> (real (n - 1) * 2 + 2 * tickGap e \<le> animationDuration cfg * 500 + 500 \<longrightarrow>
           (t \<le> arrive (n - 1) \<longrightarrow> animating (advance e cfg t s1))
         \<and> (\<not> animating (advance e cfg t s1) \<longrightarrow>
              (\<forall>i<n. near (meshPosition e (ornaments (advance e cfg t s1) ! i) t)
                          (treePosition (ornaments s0 ! i)))))" for t
  proof (intro conjI allI impI)
    assume "t \<le> clear - tickGap e"
    then have "t < gatherClear e cfg (now s0)" using lo by linarith
    then show "animating (advance e cfg t s1)" by (simp add: guard)
  next
    assume "clear + tickGap e + 2 * timerLag e \<le> t"
    then have "\<not> t < gatherClear e cfg (now s0)" using hi by linarith
    then show "\<not> animating (advance e cfg t s1)" by (simp add: guard)
  next
    fix i assume "i < n" "arrive i + tickGap e \<le> t"
    then show "meshPosition e (ornaments (advance e cfg t s1) ! i) t
        = round6v (treePosition (ornaments s0 ! i))"
      by (rule pos)
  next
    fix i assume "i < n" "arrive i + tickGap e \<le> t"
    then show "near (meshPosition e (ornaments (advance e cfg t s1) ! i) t)
        (treePosition (ornaments s0 ! i))"
      by (rule close)
  next
    assume b: "real (n - 1) * 2 + 2 * tickGap e \<le> animationDuration cfg * 500 + 500"
      and "t \<le> arrive (n - 1)"
    then have "t \<le> clear - tickGap e" using k(8) unfolding assms(5,6) by linarith
    then have "t < gatherClear e cfg (now s0)" using lo by linarith
    then show "animating (advance e cfg t s1)" by (simp add: guard)
  next
    fix i
    assume b: "real (n - 1) * 2 + 2 * tickGap e \<le> animationDuration cfg * 500 + 500"
      and c: "\<not> animating (advance e cfg t s1)" and i: "i < n"
    from c have "gatherClear e cfg (now s0) \<le> t" by (simp add: guard)
    then have "arrive i + tickGap e \<le> t" using late [OF i b] lo by linarith
    with i show "near (meshPosition e (ornaments (advance e cfg t s1) ! i) t)
        (treePosition (ornaments s0 ! i))"
      by (rule close)
  qed
  then show ?thesis using s1 by blast
qed

theorem gather_completes_witness:
  "\<exists>s1. transitionState steadyEnv True CONFIG (\<lambda>_. 0)
          (restingApp [restingMesh (Vector3 0 0 0) (Vector3 1 2 3),
                       restingMesh (Vector3 5 5 5) (Vector3 4 0 1)] 0) = Some s1
     \<and> animating (advance steadyEnv CONFIG 3184 s1)
     \<and> \<not> animating (advance steadyEnv CONFIG 3218 s1)
     \<and> meshPosition steadyEnv (ornaments (advance steadyEnv CONFIG 1818 s1) ! 1) 1818
         = Vector3 4 0 1
     \<and> near (meshPosition steadyEnv (ornaments (advance steadyEnv CONFIG 3218 s1) ! 0) 3218)
            (Vector3 1 2 3)"
proof -
  let ?s0 = "restingApp [restingMesh (Vector3 0 0 0) (Vector3 1 2 3),
                         restingMesh (Vector3 5 5 5) (Vector3 4 0 1)] 0"
  have d: "0 < animationDuration CONFIG" by (simp add: CONFIG_def)
  from gather_completes [where e = steadyEnv and cfg = CONFIG and rnd = "\<lambda>_. 0"
      and ?s0.0 = ?s0, OF env_ok_steadyEnv quiescent_restingApp d refl refl refl]
  obtain s1 where s1: "transitionState steadyEnv True CONFIG (\<lambda>_. 0) ?s0 = Some s1"
    and w: "\<And>t. (t \<le> now ?s0 + animationDuration CONFIG * 1500 + 500 - tickGap steadyEnv
                 \<longrightarrow> animating (advance steadyEnv CONFIG t s1))
            \<and> (now ?s0 + animationDuration CONFIG * 1500 + 500 + tickGap steadyEnv
                 + 2 * timerLag steadyEnv \<le> t \<longrightarrow> \<not> animating (advance steadyEnv CONFIG t s1))
            \<and> (\<forall>i<length (ornaments ?s0).
                  now ?s0 + real i * 2 + animationDuration CONFIG * 1000 + tickGap steadyEnv \<le> t \<longrightarrow>
                  meshPosition steadyEnv (ornaments (advance steadyEnv CONFIG t s1) ! i) t
                    = round6v (treePosition (ornaments ?s0 ! i))
                  \<and> near (meshPosition steadyEnv (ornaments (advance steadyEnv CONFIG t s1) ! i) t)
                         (treePosition (ornaments ?s0 ! i)))"
    by blast
  have a: "animating (advance steadyEnv CONFIG 3184 s1)"
    using w [of 3184] by (simp add: CONFIG_def)
  have b: "\<not> animating (advance steadyEnv CONFIG 3218 s1)"
    using w [of 3218] by (simp add: CONFIG_def)
  have c: "meshPosition steadyEnv (ornaments (advance steadyEnv CONFIG 1818 s1) ! 1) 1818
      = Vector3 4 0 1"
    using w [of 1818, THEN conjunct2, THEN conjunct2, THEN spec, of 1]
    by (simp add: CONFIG_def restingMesh_def round6v_def round6_def)
  have e: "near (meshPosition steadyEnv (ornaments (advance steadyEnv CONFIG 3218 s1) ! 0) 3218)
      (Vector3 1 2 3)"
    using w [of 3218, THEN conjunct2, THEN conjunct2, THEN spec, of 0]
    by (simp add: CONFIG_def restingMesh_def near_round6v)
  show ?thesis using s1 a b c e by blast
qed

text \<open>
  Claim C3 as stated fails twice, here with a tick every 16 milliseconds and timers one
  millisecond late. With 400 ornaments and the shipped configuration every ornament is
  within tolerance of its target 2.7 seconds after the request, the duration and the
  largest delay of 0.798 seconds having elapsed, yet the guard is still true. With 1000
  ornaments the guard is false 3.218 seconds after the request, while the last ornament,
  due at 3.798 seconds, is not within tolerance of its tree position.
\<close>

theorem gather_guard_counterexample:
  "\<exists>s400 s1000.
     transitionState steadyEnv True CONFIG (\<lambda>_. 0)
       (restingApp (replicate 400 (restingMesh (Vector3 0 0 0) (Vector3 1 0 0))) 0) = Some s400
     \<and> transitionState steadyEnv True CONFIG (\<lambda>_. 0)
       (restingApp (replicate 1000 (restingMesh (Vector3 0 0 0) (Vector3 1 0 0))) 0) = Some s1000
     \<and> animating (advance steadyEnv CONFIG 2700 s400)
     \<and> (\<forall>i<400. near (meshPosition steadyEnv (ornaments (advance steadyEnv CONFIG 2700 s400) ! i) 2700)
                      (Vector3 1 0 0))
     \<and> \<not> animating (advance steadyEnv CONFIG 3218 s1000)
     \<and> \<not> near (meshPosition steadyEnv (ornaments (advance steadyEnv CONFIG 3218 s1000) ! 999) 3218)
              (Vector3 1 0 0)"
proof -
  let ?m = "restingMesh (Vector3 0 0 0) (Vector3 1 0 0)"
  obtain s400 where s400: "transitionState steadyEnv True CONFIG (\<lambda>_. 0)
      (restingApp (replicate 400 ?m) 0) = Some s400"
    using gather_returns by blast
  obtain s1000 where s1000: "transitionState steadyEnv True CONFIG (\<lambda>_. 0)
      (restingApp (replicate 1000 ?m) 0) = Some s1000"
    using gather_returns by blast
  note g = gather_timeline [OF env_ok_steadyEnv quiescent_restingApp s400]
  note h = gather_timeline [OF env_ok_steadyEnv quiescent_restingApp s1000]
  have a: "animating (advance steadyEnv CONFIG 2700 s400)"
    unfolding g(1) by (simp add: gatherClear_steady)
  have b: "near (meshPosition steadyEnv (ornaments (advance steadyEnv CONFIG 2700 s400) ! i) 2700)
      (Vector3 1 0 0)" if "i < 400" for i
  proof -
    have "real i \<le> 399" using that by simp
    then have "meshPosition steadyEnv
        (gatherOrnaments CONFIG (lastTick steadyEnv 0) 0 (replicate 400 ?m) ! i) 2700
        = round6v (treePosition (replicate 400 ?m ! i))"
      using that by (intro gathered_position [OF env_ok_steadyEnv]) (simp_all add: CONFIG_def)
    then have "meshPosition steadyEnv (ornaments (advance steadyEnv CONFIG 2700 s400) ! i) 2700
        = round6v (Vector3 1 0 0)"
      unfolding g(2) using that by (simp add: restingMesh_def)
    then show ?thesis by (simp add: near_round6v)
  qed
  have c: "\<not> animating (advance steadyEnv CONFIG 3218 s1000)"
    unfolding h(1) by (simp add: gatherClear_steady)
  have d: "\<not> near (meshPosition steadyEnv (ornaments (advance steadyEnv CONFIG 3218 s1000) ! 999) 3218)
      (Vector3 1 0 0)"
    unfolding h(2)
    by (simp add: gatherOrnaments_nth meshPosition_def CONFIG_def restingMesh_def
        lerp_def back_out_def round6v_def round6_def near_def)
  show ?thesis using s400 s1000 a b c d by blast
qed


lemma transitionState_guarded: "animating s \<Longrightarrow> transitionState e g cfg rnd s = Some s"
  by (simp add: transitionState_def)

lemma transitionState_after:
  assumes "\<not> animating s" "transitionState e g cfg rnd s = Some s'"
  shows "animating s' \<and> isGathered s' = isGathered s \<and> now s' = now s
       \<and> lastGesture s' = lastGesture s \<and> lastGestureTime s' = lastGestureTime s
       \<and> (\<exists>tm. timers s' = timers s @ [tm] \<and> releases (snd tm))"
proof (cases g)
  case True
  then show ?thesis
    using assms by (auto simp: transitionState_def gatherAll_def setTimeout_def)
next
  case False
  then have "scatterAll e cfg rnd (Some False) (s\<lparr> animating := True, btnDisabled := True \<rparr>)
      = Some s'"
    using assms by (simp add: transitionState_def)
  from scatterAll_shape [OF this] show ?thesis by auto
qed

lemma filter_remove1_length:
  "tm \<in> set ts \<Longrightarrow>
   length (filter P (remove1 tm ts)) + (if P tm then 1 else 0) = length (filter P ts)"
  by (induction ts) auto

lemma guardInv_fireTimer:
  assumes "guardInv s" "tm \<in> set (timers s)"
  shows "guardInv (fireTimer e cfg tm s)"
proof -
  note r = filter_remove1_length [OF assms(2), of "\<lambda>tm. releases (snd tm)"]
  show ?thesis
    using assms(1) r
    by (cases "snd tm")
       (auto simp: guardInv_def inFlight_def fireTimer_def fire_def resume_def setTimeout_def
             split: option.splits if_splits)
qed

lemma guardInv_advance: "guardInv s \<Longrightarrow> guardInv (advance e cfg t s)"
proof (induction e cfg t s rule: advance.induct)
  case (1 e cfg t s)
  show ?case
  proof (cases "nextDue t (timers s)")
    case None
    then show ?thesis
      using "1.prems" by (subst advance.simps) (simp add: guardInv_def inFlight_def)
  next
    case (Some tm)
    then have "tm \<in> set (timers s)" by (simp add: nextDue_in_set)
    then have "guardInv (fireTimer e cfg tm s)" using "1.prems" by (intro guardInv_fireTimer)
    then show ?thesis
      using "1.IH" [OF Some] Some by (subst advance.simps) simp
  qed
qed

lemma guardInv_transitionState:
  assumes "guardInv s" "transitionState e g cfg rnd s = Some s'"
  shows "guardInv s'"
proof (cases "animating s")
  case True
  then show ?thesis using assms by (simp add: transitionState_guarded)
next
  case False
  from transitionState_after [OF False assms(2)] show ?thesis
    using assms(1) False by (auto simp: guardInv_def inFlight_def)
qed

lemma guardInv_isGathered [simp]: "guardInv (s\<lparr> isGathered := b \<rparr>) = guardInv s"
  by (simp add: guardInv_def inFlight_def)

lemma guardInv_toggleState:
  "guardInv s \<Longrightarrow> toggleState e cfg rnd s = Some s' \<Longrightarrow> guardInv s'"
  unfolding toggleState_def by (erule guardInv_transitionState [rotated]) simp

lemma guardInv_hand_fields [simp]:
  "guardInv (s\<lparr> hts_detected := a \<rparr>) = guardInv s"
  "guardInv (s\<lparr> hts_position := p \<rparr>) = guardInv s"
  "guardInv (s\<lparr> hts_gesture := g \<rparr>) = guardInv s"
  "guardInv (s\<lparr> lastGesture := lg \<rparr>) = guardInv s"
  "guardInv (s\<lparr> lastGestureTime := lt \<rparr>) = guardInv s"
  by (simp_all add: guardInv_def inFlight_def)

lemma guardInv_stopHandTracking: "guardInv s \<Longrightarrow> guardInv (stopHandTracking s)"
  by (simp add: stopHandTracking_def)

lemma guardInv_onHandResults:
  assumes "guardInv s" "onHandResults e cfg rnd r s = Some (Inr (effs, s'))"
  shows "guardInv s'"
  using assms
  by (auto simp: onHandResults_def Let_def
           split: option.splits list.splits if_splits sum.splits
           dest!: guardInv_transitionState [rotated])

lemma reachable_guardInv:
  "reachable e cfg rnd s0 s \<Longrightarrow> guardInv s0 \<Longrightarrow> guardInv s"
  by (induction rule: reachable.induct)
     (auto intro: guardInv_transitionState guardInv_toggleState guardInv_onHandResults
        guardInv_advance guardInv_stopHandTracking)

text \<open>
  Claim C1. A call of \<open>transitionState\<close> while the guard is true returns the state as it
  is: no tween, no timer, no position and not the guard is touched. A gather request
  followed by a scatter request, at once or at any time before the guard is cleared, so
  at any time up to a frame before \<open>1.5 * animationDuration + 0.5\<close> seconds have passed,
  leaves the guard true and the state of the moment as it is. From a state in which the guard agrees with the pending
  callbacks, no sequence of requests, toggles, gesture frames, stops of the hand tracking
  and passing time leads to more than one transition in flight, and one is in flight
  exactly while the guard is true.
\<close>

theorem transition_guard_reentrancy:
  "(animating s \<longrightarrow> transitionState e toGathered cfg rnd s = Some s)
   \<and> (\<not> animating s \<and> transitionState e True cfg rnd s = Some s1 \<longrightarrow>
        animating s1 \<and> transitionState e False cfg rnd s1 = Some s1)
   \<and> (env_ok e \<and> quiescent s \<and> 0 \<le> animationDuration cfg
        \<and> transitionState e True cfg rnd s = Some s1
        \<and> (t < gatherClear e cfg (now s)
             \<or> t \<le> now s + animationDuration cfg * 1500 + 500 - tickGap e) \<longrightarrow>
        animating (advance e cfg t s1)
        \<and> transitionState e False cfg rnd (advance e cfg t s1) = Some (advance e cfg t s1))
   \<and> (guardInv s0 \<and> reachable e cfg rnd s0 s' \<longrightarrow>
        inFlight s' \<le> 1 \<and> (animating s' \<longleftrightarrow> inFlight s' = 1))"
proof (intro conjI impI)
  assume "animating s"
  then show "transitionState e toGathered cfg rnd s = Some s" by (rule transitionState_guarded)
next
  assume a: "\<not> animating s \<and> transitionState e True cfg rnd s = Some s1"
  then show "animating s1" using transitionState_after [of s e True cfg rnd s1] by simp
  then show "transitionState e False cfg rnd s1 = Some s1" by (rule transitionState_guarded)
next
  assume a: "env_ok e \<and> quiescent s \<and> 0 \<le> animationDuration cfg
        \<and> transitionState e True cfg rnd s = Some s1
        \<and> (t < gatherClear e cfg (now s)
             \<or> t \<le> now s + animationDuration cfg * 1500 + 500 - tickGap e)"
  then have "t < gatherClear e cfg (now s)"
    using gatherClear_bounds(1) [of e cfg "now s"] by auto
  then show "animating (advance e cfg t s1)"
    using a gather_timeline(1) [of e s cfg rnd s1 t] by simp
  then show "transitionState e False cfg rnd (advance e cfg t s1) = Some (advance e cfg t s1)"
    by (rule transitionState_guarded)
next
  assume a: "guardInv s0 \<and> reachable e cfg rnd s0 s'"
  then have "guardInv s'" using reachable_guardInv [of e cfg rnd s0 s'] by simp
  then show "inFlight s' \<le> 1" and "animating s' \<longleftrightarrow> inFlight s' = 1"
    by (simp_all add: guardInv_def split: if_splits)
qed

theorem transition_guard_reentrancy_witness:
  "\<exists>s1. transitionState steadyEnv True CONFIG (\<lambda>_. 0) (restingApp [] 0) = Some s1
     \<and> animating s1
     \<and> transitionState steadyEnv False CONFIG (\<lambda>_. 0) s1 = Some s1
     \<and> animating (advance steadyEnv CONFIG 3000 s1)
     \<and> transitionState steadyEnv False CONFIG (\<lambda>_. 0) (advance steadyEnv CONFIG 3000 s1)
         = Some (advance steadyEnv CONFIG 3000 s1)
     \<and> inFlight (advance steadyEnv CONFIG 3000 s1) = 1"
proof -
  let ?s0 = "restingApp [] 0"
  obtain s1 where s1: "transitionState steadyEnv True CONFIG (\<lambda>_. 0) ?s0 = Some s1"
    using gather_returns by blast
  have inv: "guardInv ?s0" by (simp add: guardInv_def inFlight_def)
  have reach: "reachable steadyEnv CONFIG (\<lambda>_. 0) ?s0 (advance steadyEnv CONFIG 3000 s1)"
    by (intro reachable.tick reachable.request [OF reachable.start s1])
  have d: "0 \<le> animationDuration CONFIG
      \<and> 3000 \<le> now ?s0 + animationDuration CONFIG * 1500 + 500 - tickGap steadyEnv"
    by (simp add: CONFIG_def)
  show ?thesis
    using transition_guard_reentrancy [where e = steadyEnv and s = ?s0 and ?s1.0 = s1
        and cfg = CONFIG and rnd = "\<lambda>_. 0" and t = 3000 and ?s0.0 = ?s0
        and s' = "advance steadyEnv CONFIG 3000 s1"]
      s1 inv reach d env_ok_steadyEnv
    by auto
qed

lemma toggle_in_flight:
  "animating s \<Longrightarrow> toggleState e cfg rnd s = Some (s\<lparr> isGathered := \<not> isGathered s \<rparr>)"
  by (simp add: toggleState_def transitionState_def)

lemma onHandResults_in_flight:
  assumes "animating s" "onHandResults e cfg rnd r s = Some (Inr (effs, s'))"
  shows "isGathered s' = isGathered s \<and> animating s' \<and> ornaments s' = ornaments s
       \<and> timers s' = timers s \<and> Transition True \<notin> set effs \<and> Transition False \<notin> set effs"
  using assms
  by (auto simp: onHandResults_def Let_def
           split: option.splits list.splits if_splits sum.splits)

text \<open>
  Claim C9. \<open>toggleState\<close> flips \<open>isGathered\<close> before \<open>transitionState\<close> looks at the
  guard: during a transition it inverts the flag and nothing else, where a gesture frame
  leaves the flag, the ornaments and the guard alone. After a toggle that starts a gather
  and a second toggle while it runs, the flag says scattered for all later time, while
  every ornament comes to rest at its tree position, as the tween rounds it, and the
  guard is cleared.
\<close>

theorem toggle_flips_before_guard:
  "(animating s \<longrightarrow> toggleState e cfg rnd s = Some (s\<lparr> isGathered := \<not> isGathered s \<rparr>))
   \<and> (animating s \<and> onHandResults e cfg rnd r s = Some (Inr (effs, s')) \<longrightarrow>
        isGathered s' = isGathered s \<and> animating s' \<and> ornaments s' = ornaments s
        \<and> Transition True \<notin> set effs \<and> Transition False \<notin> set effs)
   \<and> (env_ok e \<and> quiescent s0 \<and> \<not> isGathered s0 \<and> 0 < animationDuration cfg
        \<and> toggleState e cfg rnd s0 = Some s1 \<and> toggleState e cfg rnd s1 = Some s2
        \<and> now s0 + animationDuration cfg * 1500 + 500 + tickGap e + 2 * timerLag e \<le> t
        \<and> now s0 + real (length (ornaments s0)) * 2 + animationDuration cfg * 1000
            + tickGap e \<le> t \<longrightarrow>
        \<not> isGathered (advance e cfg t s2) \<and> \<not> animating (advance e cfg t s2)
        \<and> (\<forall>i < length (ornaments s0).
              meshPosition e (ornaments (advance e cfg t s2) ! i) t
                = round6v (treePosition (ornaments s0 ! i))
              \<and> near (meshPosition e (ornaments (advance e cfg t s2) ! i) t)
                     (treePosition (ornaments s0 ! i))))"
proof (intro conjI impI)
  assume "animating s"
  then show "toggleState e cfg rnd s = Some (s\<lparr> isGathered := \<not> isGathered s \<rparr>)"
    by (rule toggle_in_flight)
next
  assume "animating s \<and> onHandResults e cfg rnd r s = Some (Inr (effs, s'))"
  then have *: "isGathered s' = isGathered s \<and> animating s' \<and> ornaments s' = ornaments s
       \<and> timers s' = timers s \<and> Transition True \<notin> set effs \<and> Transition False \<notin> set effs"
    using onHandResults_in_flight [of s e cfg rnd r effs s'] by simp
  from * show "isGathered s' = isGathered s" by simp
  from * show "animating s'" by simp
  from * show "ornaments s' = ornaments s" by simp
  from * show "Transition True \<notin> set effs" by simp
  from * show "Transition False \<notin> set effs" by simp
next
  assume a: "env_ok e \<and> quiescent s0 \<and> \<not> isGathered s0 \<and> 0 < animationDuration cfg
        \<and> toggleState e cfg rnd s0 = Some s1 \<and> toggleState e cfg rnd s1 = Some s2
        \<and> now s0 + animationDuration cfg * 1500 + 500 + tickGap e + 2 * timerLag e \<le> t
        \<and> now s0 + real (length (ornaments s0)) * 2 + animationDuration cfg * 1000
            + tickGap e \<le> t"
  let ?d = "animationDuration cfg"
  let ?a = "timerFire e (now s0 + max 0 (?d * 500))"
  from a have ok: "env_ok e" and q: "\<not> animating s0" "timers s0 = []" "\<not> isGathered s0" "0 < ?d"
    and t1: "toggleState e cfg rnd s0 = Some s1" and t2: "toggleState e cfg rnd s1 = Some s2"
    by (simp_all add: quiescent_def)
  have s1: "s1 = s0\<lparr> isGathered := True, animating := True, btnDisabled := True,
               ornaments := gatherOrnaments cfg (lastTick e (now s0)) 0 (ornaments s0),
               timers := [(?a, RibbonReveal (Some True))] \<rparr>"
    using t1 q by (simp add: toggleState_def transitionState_gather)
  then have s2: "s2 = s1\<lparr> isGathered := False \<rparr>"
    using t2 by (simp add: toggle_in_flight)
  have "now s0 + max 0 (?d * 500) \<le> ?a" by (rule env_ok_tick(5) [OF ok])
  then have "now s2 \<le> ?a" by (simp add: s1 s2)
  moreover have "timers s2 = [(?a, RibbonReveal (Some True))]" "animating s2"
    by (simp_all add: s1 s2)
  ultimately have "animating (advance e cfg t s2) = (t < gatherClear e cfg (now s0))"
    unfolding gatherClear_def by (intro reveal_timeline [OF ok])
  moreover have "gatherClear e cfg (now s0) < now s0 + ?d * 1500 + 500 + tickGap e + 2 * timerLag e"
    using q(4) by (intro gatherClear_bounds(2) [OF ok]) simp
  ultimately show "\<not> animating (advance e cfg t s2)" using a by simp
  show "\<not> isGathered (advance e cfg t s2)" by (simp add: advance_keeps s2)
  have orn: "ornaments (advance e cfg t s2)
      = gatherOrnaments cfg (lastTick e (now s0)) 0 (ornaments s0)"
    by (simp add: advance_keeps s1 s2)
  have pos: "meshPosition e (ornaments (advance e cfg t s2) ! i) t
      = round6v (treePosition (ornaments s0 ! i))" if i: "i < length (ornaments s0)" for i
  proof -
    have "real i \<le> real (length (ornaments s0))" using i by simp
    then have "now s0 + real i * 2 + ?d * 1000 + tickGap e \<le> t" using a by simp
    then show ?thesis
      unfolding orn using i q(4) by (intro gathered_position [OF ok]) simp_all
  qed
  show "\<forall>i < length (ornaments s0).
          meshPosition e (ornaments (advance e cfg t s2) ! i) t
            = round6v (treePosition (ornaments s0 ! i))
          \<and> near (meshPosition e (ornaments (advance e cfg t s2) ! i) t)
                 (treePosition (ornaments s0 ! i))"
    by (simp add: pos near_round6v)
qed

lemma toggle_returns:
  "animating s \<or> \<not> isGathered s \<Longrightarrow> \<exists>s'. toggleState e cfg rnd s = Some s'"
  by (auto simp: toggleState_def transitionState_def)

theorem toggle_flips_before_guard_witness:
  "\<exists>s1 s2. toggleState steadyEnv CONFIG (\<lambda>_. 0)
             (restingApp [restingMesh (Vector3 0 0 0) (Vector3 1 2 3)] 0) = Some s1
     \<and> toggleState steadyEnv CONFIG (\<lambda>_. 0) s1 = Some s2
     \<and> isGathered s1 \<and> \<not> isGathered s2
     \<and> \<not> isGathered (advance steadyEnv CONFIG 5000 s2)
     \<and> \<not> animating (advance steadyEnv CONFIG 5000 s2)
     \<and> meshPosition steadyEnv (ornaments (advance steadyEnv CONFIG 5000 s2) ! 0) 5000
         = Vector3 1 2 3"
proof -
  let ?s0 = "restingApp [restingMesh (Vector3 0 0 0) (Vector3 1 2 3)] 0"
  obtain s1 where t1: "toggleState steadyEnv CONFIG (\<lambda>_. 0) ?s0 = Some s1"
    using toggle_returns [of ?s0] by fastforce
  then have a1: "animating s1" "isGathered s1"
    by (auto simp: toggleState_def transitionState_gather)
  obtain s2 where t2: "toggleState steadyEnv CONFIG (\<lambda>_. 0) s1 = Some s2"
    using toggle_returns [of s1] a1 by fastforce
  then have a2: "\<not> isGathered s2" using a1 by (auto simp: toggle_in_flight)
  have d: "0 < animationDuration CONFIG
      \<and> now ?s0 + animationDuration CONFIG * 1500 + 500 + tickGap steadyEnv
          + 2 * timerLag steadyEnv \<le> 5000
      \<and> now ?s0 + real (length (ornaments ?s0)) * 2 + animationDuration CONFIG * 1000
          + tickGap steadyEnv \<le> 5000"
    by (simp add: CONFIG_def)
  have "\<not> isGathered (advance steadyEnv CONFIG 5000 s2)
     \<and> \<not> animating (advance steadyEnv CONFIG 5000 s2)
     \<and> meshPosition steadyEnv (ornaments (advance steadyEnv CONFIG 5000 s2) ! 0) 5000
         = Vector3 1 2 3"
    using toggle_flips_before_guard [where e = steadyEnv and ?s0.0 = ?s0 and ?s1.0 = s1
        and ?s2.0 = s2 and cfg = CONFIG and rnd = "\<lambda>_. 0" and t = 5000]
      t1 t2 d env_ok_steadyEnv
    by (simp add: restingMesh_def round6v_def round6_def)
  then show ?thesis using t1 t2 a1 a2 by blast
qed


section \<open>Gesture handler: proofs\<close>

lemma detectGesture_length: "detectGesture lm = Inr g \<Longrightarrow> \<not> length lm \<le> 9"
  by (auto simp: detectGesture_def split: if_splits)

text \<open>
  What one frame with a hand does to the two variables of the debounce: \<open>lastGesture\<close>
  takes the gesture of every frame that passes the test, \<open>lastGestureTime\<close> the time of
  every frame that triggers a discrete action, and only a frame that passes the test
  triggers one.
\<close>

lemma onHandResults_frame:
  assumes "detectGesture lm = Inr g"
    and "onHandResults e cfg rnd (Some (lm # hs)) s = Some (Inr (effs, s'))"
  shows "lastGesture s' = (if Some g \<noteq> lastGesture s
                               \<and> gestureDebounceTime cfg < now s - lastGestureTime s
                            then Some g else lastGesture s)"
    and "lastGestureTime s' = (if filter discrete effs \<noteq> [] then now s else lastGestureTime s)"
    and "filter discrete effs \<noteq> [] \<Longrightarrow>
           Some g \<noteq> lastGesture s \<and> gestureDebounceTime cfg < now s - lastGestureTime s"
    and "now s' = now s"
    and "gatherRequests effs \<le> 1"
    and "Some g \<noteq> lastGesture s \<and> gestureDebounceTime cfg < now s - lastGestureTime s
           \<Longrightarrow> (filter discrete effs \<noteq> []) = (g = Open \<or> (g = Fist \<and> \<not> isGathered s \<and> \<not> animating s))"
proof -
  have l: "\<not> length lm \<le> 9" using assms(1) by (rule detectGesture_length)
  let ?P = "Some g \<noteq> lastGesture s \<and> gestureDebounceTime cfg < now s - lastGestureTime s"
  let ?s2 = "s\<lparr> hts_detected := True,
                hts_position := Vector3 ((lm_x (lm ! 9) - 5 / 10) * 80)
                                        ((5 / 10 - lm_y (lm ! 9)) * 60) 20,
                hts_gesture := g \<rparr>"
  let ?spiral = "if g = Fist then [SnowSpiral (hts_position ?s2)] else []"
  have sp: "filter discrete ?spiral = []" "gatherRequests ?spiral = 0"
    by (simp_all add: gatherRequests_def)
  consider (debounced) "\<not> ?P"
    | (gather) "?P" "g = Fist \<and> \<not> isGathered s \<and> \<not> animating s"
    | (scatter) "?P" "\<not> (g = Fist \<and> \<not> isGathered s \<and> \<not> animating s)"
        "g = Open \<and> isGathered s \<and> \<not> animating s"
    | (wave) "?P" "\<not> (g = Fist \<and> \<not> isGathered s \<and> \<not> animating s)"
        "\<not> (g = Open \<and> isGathered s \<and> \<not> animating s)" "g = Open"
    | (none) "?P" "\<not> (g = Fist \<and> \<not> isGathered s \<and> \<not> animating s)"
        "\<not> (g = Open \<and> isGathered s \<and> \<not> animating s)" "g \<noteq> Open"
    by blast
  then have "lastGesture s' = (if ?P then Some g else lastGesture s)
      \<and> lastGestureTime s' = (if filter discrete effs \<noteq> [] then now s else lastGestureTime s)
      \<and> (filter discrete effs \<noteq> [] \<longrightarrow> ?P)
      \<and> now s' = now s
      \<and> gatherRequests effs \<le> 1
      \<and> (?P \<longrightarrow> (filter discrete effs \<noteq> [])
                  = (g = Open \<or> (g = Fist \<and> \<not> isGathered s \<and> \<not> animating s)))"
  proof cases
    case debounced
    then have "effs = ?spiral" "s' = ?s2"
      using assms(2) unfolding onHandResults_def Let_def
      by (auto simp: l assms(1) split: if_splits)
    then show ?thesis using debounced sp by auto
  next
    case gather
    then obtain s3 where
      t: "transitionState e True cfg rnd (?s2\<lparr> isGathered := True \<rparr>) = Some s3"
      and r: "effs = ?spiral @ [Transition True]"
        "s' = s3\<lparr> lastGestureTime := now s, lastGesture := Some g \<rparr>"
      using assms(2) unfolding onHandResults_def Let_def
      by (auto simp: l assms(1) split: option.splits)
    have "now s3 = now s"
      using gather transitionState_after [OF _ t] by simp
    then show ?thesis using gather r by (simp add: gatherRequests_def)
  next
    case scatter
    then obtain s3 where
      t: "transitionState e False cfg rnd (?s2\<lparr> isGathered := False \<rparr>) = Some s3"
      and r: "effs = ?spiral @ [Transition False, SnowWave (hts_position ?s2)]"
        "s' = s3\<lparr> lastGestureTime := now s, lastGesture := Some g \<rparr>"
      using assms(2) unfolding onHandResults_def Let_def
      by (auto simp: l assms(1) split: option.splits)
    have "now s3 = now s"
      using scatter transitionState_after [OF _ t] by simp
    then show ?thesis using scatter r by (simp add: gatherRequests_def)
  next
    case wave
    then have "effs = ?spiral @ [SnowWave (hts_position ?s2)]"
      "s' = ?s2\<lparr> lastGestureTime := now s, lastGesture := Some g \<rparr>"
      using assms(2) unfolding onHandResults_def Let_def
      by (auto simp: l assms(1))
    then show ?thesis using wave by (simp add: gatherRequests_def)
  next
    case none
    then have "effs = ?spiral" "s' = ?s2\<lparr> lastGesture := Some g \<rparr>"
      using assms(2) unfolding onHandResults_def Let_def
      by (auto simp: l assms(1))
    then show ?thesis using none sp by auto
  qed
  then show "lastGesture s' = (if ?P then Some g else lastGesture s)"
    and "lastGestureTime s' = (if filter discrete effs \<noteq> [] then now s else lastGestureTime s)"
    and "filter discrete effs \<noteq> [] \<Longrightarrow> ?P"
    and "now s' = now s"
    and "gatherRequests effs \<le> 1"
    and "?P \<Longrightarrow> (filter discrete effs \<noteq> [])
                  = (g = Open \<or> (g = Fist \<and> \<not> isGathered s \<and> \<not> animating s))"
    by blast+
qed


lemma onHandResults_no_hand:
  "r = None \<or> r = Some [] \<Longrightarrow>
   onHandResults e cfg rnd r s = Some (Inr ([], s\<lparr> hts_detected := False \<rparr>))"
  by (auto simp: onHandResults_def)

lemma onHandResults_classified:
  assumes "onHandResults e cfg rnd (Some (lm # hs)) s = Some (Inr x)"
  shows "\<exists>g. detectGesture lm = Inr g"
proof (cases "detectGesture lm")
  case (Inl err)
  then show ?thesis
    using assms by (simp add: onHandResults_def Let_def split: if_splits)
next
  case (Inr g)
  then show ?thesis by simp
qed

lemma onHandResults_time:
  assumes "onHandResults e cfg rnd r s = Some (Inr (effs, s'))"
  shows "lastGestureTime s' = (if filter discrete effs \<noteq> [] then now s else lastGestureTime s)"
    and "filter discrete effs \<noteq> [] \<Longrightarrow> gestureDebounceTime cfg < now s - lastGestureTime s"
    and "now s' = now s"
proof -
  have "lastGestureTime s' = (if filter discrete effs \<noteq> [] then now s else lastGestureTime s)
      \<and> (filter discrete effs \<noteq> [] \<longrightarrow> gestureDebounceTime cfg < now s - lastGestureTime s)
      \<and> now s' = now s"
  proof (cases "r = None \<or> r = Some []")
    case True
    then show ?thesis using assms by (auto simp: onHandResults_no_hand)
  next
    case False
    then obtain lm hs where r: "r = Some (lm # hs)"
      by (cases r) (auto simp: neq_Nil_conv)
    then obtain g where g: "detectGesture lm = Inr g"
      using assms onHandResults_classified by blast
    note f = onHandResults_frame [OF g assms [unfolded r]]
    show ?thesis using f(2,3,4) by simp
  qed
  then show "lastGestureTime s' = (if filter discrete effs \<noteq> [] then now s else lastGestureTime s)"
    and "filter discrete effs \<noteq> [] \<Longrightarrow> gestureDebounceTime cfg < now s - lastGestureTime s"
    and "now s' = now s"
    by blast+
qed

lemma filter_discrete_tagged [simp]:
  "(filter (\<lambda>te. discrete (snd te)) (map (Pair c) effs) = []) = (filter discrete effs = [])"
  by (induction effs) auto

lemma lastActionTime_tagged:
  "lastActionTime d (map (Pair c) effs @ rest)
     = lastActionTime (if filter discrete effs \<noteq> [] then c else d) rest"
proof (induction effs arbitrary: d)
  case Nil
  then show ?case by simp
next
  case (Cons x effs)
  show ?case
  proof (cases "discrete x")
    case True
    then show ?thesis using Cons.IH [of c] by simp
  next
    case False
    then show ?thesis using Cons.IH [of d] by simp
  qed
qed

lemma spaced_tagged:
  "spaced D prev (map (Pair c) effs @ rest)
     = ((filter discrete effs \<noteq> [] \<longrightarrow> c = prev \<or> D < c - prev)
        \<and> spaced D (if filter discrete effs \<noteq> [] then c else prev) rest)"
proof (induction effs arbitrary: prev)
  case Nil
  then show ?case by simp
next
  case (Cons x effs)
  show ?case
  proof (cases "discrete x")
    case True
    then show ?thesis using Cons.IH [of c] by auto
  next
    case False
    then show ?thesis using Cons.IH [of prev] by simp
  qed
qed

lemma handFrames_Cons:
  assumes "handFrames e cfg rnd ((t, r) # frames) s = Some (Inr (tes, s'))"
  obtains effs s1 tes' where
    "onHandResults e cfg rnd r (advance e cfg t s) = Some (Inr (effs, s1))"
    "handFrames e cfg rnd frames s1 = Some (Inr (tes', s'))"
    "tes = map (Pair (now (advance e cfg t s))) effs @ tes'"
  using assms by (auto split: option.splits sum.splits)

text \<open>
  Over a run of frames \<open>lastGestureTime\<close> is the moment of the last discrete action, and
  the discrete actions keep a distance of more than \<open>gestureDebounceTime\<close>.
\<close>

lemma handFrames_time:
  assumes "handFrames e cfg rnd frames s = Some (Inr (tes, s'))"
  shows "lastGestureTime s' = lastActionTime (lastGestureTime s) tes
       \<and> spaced (gestureDebounceTime cfg) (lastGestureTime s) tes"
  using assms
proof (induction frames arbitrary: s tes)
  case Nil
  then show ?case by simp
next
  case (Cons fr frames)
  obtain t r where fr: "fr = (t, r)" by (cases fr)
  let ?sa = "advance e cfg t s"
  from Cons.prems [unfolded fr] obtain effs s1 tes' where
    h1: "onHandResults e cfg rnd r ?sa = Some (Inr (effs, s1))"
    and h2: "handFrames e cfg rnd frames s1 = Some (Inr (tes', s'))"
    and tes: "tes = map (Pair (now ?sa)) effs @ tes'"
    by (rule handFrames_Cons)
  have keep: "lastGestureTime ?sa = lastGestureTime s"
    using advance_keeps [of e cfg t s] by simp
  note f = onHandResults_time [OF h1, unfolded keep]
  from Cons.IH [OF h2] have ih: "lastGestureTime s' = lastActionTime (lastGestureTime s1) tes'"
    "spaced (gestureDebounceTime cfg) (lastGestureTime s1) tes'"
    by simp_all
  have a: "lastGestureTime s' = lastActionTime (lastGestureTime s) tes"
    unfolding tes lastActionTime_tagged ih(1) f(1) ..
  have b: "spaced (gestureDebounceTime cfg) (lastGestureTime s) tes"
    unfolding tes spaced_tagged using ih(2) f(2) unfolding f(1) by simp
  show ?case using a b by simp
qed

lemma onHandResults_same_gesture:
  assumes "lastGesture s = Some g" "redetects g r"
    and "onHandResults e cfg rnd r s = Some (Inr (effs, s'))"
  shows "filter discrete effs = [] \<and> lastGesture s' = Some g"
proof (cases "r = None \<or> r = Some []")
  case True
  then show ?thesis using assms by (auto simp: onHandResults_no_hand)
next
  case False
  then obtain lm hs where r: "r = Some (lm # hs)"
    by (cases r) (auto simp: neq_Nil_conv)
  then have d: "detectGesture lm = Inr g" using assms(2) by (simp add: redetects_def)
  note f = onHandResults_frame [OF d assms(3) [unfolded r]]
  show ?thesis using f(1) f(3) assms(1) by auto
qed

lemma handFrames_same_gesture:
  assumes "lastGesture s = Some g" "\<forall>fr \<in> set frames. redetects g (snd fr)"
    and "handFrames e cfg rnd frames s = Some (Inr (tes, s'))"
  shows "filter (\<lambda>te. discrete (snd te)) tes = [] \<and> lastGesture s' = Some g"
  using assms
proof (induction frames arbitrary: s tes)
  case Nil
  then show ?case by simp
next
  case (Cons fr frames)
  obtain t r where fr: "fr = (t, r)" by (cases fr)
  from Cons.prems(3) [unfolded fr] obtain effs s1 tes' where
    h1: "onHandResults e cfg rnd r (advance e cfg t s) = Some (Inr (effs, s1))"
    and h2: "handFrames e cfg rnd frames s1 = Some (Inr (tes', s'))"
    and tes: "tes = map (Pair (now (advance e cfg t s))) effs @ tes'"
    by (rule handFrames_Cons)
  have "lastGesture (advance e cfg t s) = Some g"
    using Cons.prems(1) by (simp add: advance_keeps)
  moreover have "redetects g r" using Cons.prems(2) by (simp add: fr)
  ultimately have 1: "filter discrete effs = [] \<and> lastGesture s1 = Some g"
    using h1 by (intro onHandResults_same_gesture)
  then have "filter (\<lambda>te. discrete (snd te)) tes' = [] \<and> lastGesture s' = Some g"
    using Cons.prems(2) h2 by (intro Cons.IH) simp_all
  then show ?case using 1 tes by simp
qed

lemma no_discrete_no_gather: "filter discrete effs = [] \<Longrightarrow> gatherRequests effs = 0"
  by (auto simp: gatherRequests_def filter_empty_conv)

lemma gatherRequests_append [simp]:
  "gatherRequests (a @ b) = gatherRequests a + gatherRequests b"
  by (simp add: gatherRequests_def)


text \<open>
  Claim C4, as amended. A frame classified as \<open>g\<close> triggers a discrete action (a
  transition or a snow wave) only if \<open>g\<close> differs from \<open>lastGesture\<close> and more than
  \<open>gestureDebounceTime\<close> has passed since \<open>lastGestureTime\<close>. Of these two variables
  \<open>lastGestureTime\<close> is the time of the last triggered action, through the frame and any
  run of frames after it, and the actions of the run are more than \<open>gestureDebounceTime\<close>
  apart. \<open>lastGesture\<close> is the gesture of the last frame that passed the test, whether
  that frame triggered anything or not; after a frame that triggered an action it is the
  gesture acted upon. Two consecutive frames classified alike, any time apart, request at
  most one gather between them, and if the first triggers an action the second triggers
  none. While later frames show the same gesture or no hand, no discrete action is
  triggered; only the spiral of a held fist goes on.
\<close>

theorem gesture_debounce:
  assumes "detectGesture lm = Inr g"
    and "onHandResults e cfg rnd (Some (lm # hs)) s = Some (Inr (effs, s1))"
    and "handFrames e cfg rnd frames s1 = Some (Inr (tes, s'))"
  shows "(filter discrete effs \<noteq> [] \<longrightarrow>
            Some g \<noteq> lastGesture s \<and> gestureDebounceTime cfg < now s - lastGestureTime s
            \<and> gestureDebounceTime cfg \<le> now s - lastGestureTime s
            \<and> lastGesture s1 = Some g)
       \<and> lastGesture s1 = (if Some g \<noteq> lastGesture s
                                \<and> gestureDebounceTime cfg < now s - lastGestureTime s
                             then Some g else lastGesture s)
       \<and> lastGestureTime s1 = (if filter discrete effs \<noteq> [] then now s else lastGestureTime s)
       \<and> lastGestureTime s' = lastActionTime (lastGestureTime s) (map (Pair (now s)) effs @ tes)
       \<and> spaced (gestureDebounceTime cfg) (lastGestureTime s) (map (Pair (now s)) effs @ tes)
       \<and> (\<forall>t2 lm2 hs2. frames = [(t2, Some (lm2 # hs2))] \<and> detectGesture lm2 = Inr g \<longrightarrow>
             gatherRequests (effs @ map snd tes) \<le> 1
             \<and> (filter discrete effs \<noteq> [] \<longrightarrow> filter (\<lambda>te. discrete (snd te)) tes = []))
       \<and> (lastGesture s1 = Some g \<and> (\<forall>fr \<in> set frames. redetects g (snd fr)) \<longrightarrow>
             filter (\<lambda>te. discrete (snd te)) tes = [] \<and> lastGesture s' = Some g)"
proof -
  note f = onHandResults_frame [OF assms(1,2)]
  note run = handFrames_time [OF assms(3)]
  have acted: "Some g \<noteq> lastGesture s \<and> gestureDebounceTime cfg < now s - lastGestureTime s
      \<and> gestureDebounceTime cfg \<le> now s - lastGestureTime s \<and> lastGesture s1 = Some g"
    if "filter discrete effs \<noteq> []"
    using f(3) [OF that] f(1) by simp
  have time: "lastGestureTime s' = lastActionTime (lastGestureTime s) (map (Pair (now s)) effs @ tes)"
    unfolding lastActionTime_tagged using run f(2) by simp
  have apart: "spaced (gestureDebounceTime cfg) (lastGestureTime s) (map (Pair (now s)) effs @ tes)"
    unfolding spaced_tagged using run f(2) f(3) by simp
  have like: "filter (\<lambda>te. discrete (snd te)) tes = [] \<and> lastGesture s' = Some g"
    if "lastGesture s1 = Some g" "\<forall>fr \<in> set frames. redetects g (snd fr)"
    using that assms(3) by (rule handFrames_same_gesture)
  have second: "gatherRequests (effs @ map snd tes) \<le> 1
      \<and> (filter discrete effs \<noteq> [] \<longrightarrow> filter (\<lambda>te. discrete (snd te)) tes = [])"
    if fr: "frames = [(t2, Some (lm2 # hs2))]" and d2: "detectGesture lm2 = Inr g"
    for t2 lm2 hs2
  proof -
    from assms(3) [unfolded fr] obtain effs2 s2 tes' where
      h1: "onHandResults e cfg rnd (Some (lm2 # hs2)) (advance e cfg t2 s1) = Some (Inr (effs2, s2))"
      and h2: "handFrames e cfg rnd [] s2 = Some (Inr (tes', s'))"
      and tes: "tes = map (Pair (now (advance e cfg t2 s1))) effs2 @ tes'"
      by (rule handFrames_Cons)
    have tes': "tes = map (Pair (now (advance e cfg t2 s1))) effs2" using h2 tes by simp
    have tes2: "map snd tes = effs2" unfolding tes' by (simp add: comp_def)
    have none2: "(filter (\<lambda>te. discrete (snd te)) tes = []) = (filter discrete effs2 = [])"
      unfolding tes' by (rule filter_discrete_tagged)
    note f2 = onHandResults_frame [OF d2 h1]
    show ?thesis
    proof (cases "lastGesture s1 = Some g")
      case True
      have "\<forall>fr \<in> set frames. redetects g (snd fr)"
        using fr d2 by (simp add: redetects_def)
      with True have quiet: "filter (\<lambda>te. discrete (snd te)) tes = []"
        using like by blast
      then have "gatherRequests effs2 = 0"
        unfolding none2 by (rule no_discrete_no_gather)
      then show ?thesis
        using f(5) quiet by (simp add: tes2)
    next
      case False
      then have "filter discrete effs = []" using acted by blast
      then show ?thesis
        using f2(5) no_discrete_no_gather [of effs] by (simp add: tes2)
    qed
  qed
  have A: "filter discrete effs \<noteq> [] \<longrightarrow>
            Some g \<noteq> lastGesture s \<and> gestureDebounceTime cfg < now s - lastGestureTime s
            \<and> gestureDebounceTime cfg \<le> now s - lastGestureTime s
            \<and> lastGesture s1 = Some g"
    using acted by blast
  have F: "\<forall>t2 lm2 hs2. frames = [(t2, Some (lm2 # hs2))] \<and> detectGesture lm2 = Inr g \<longrightarrow>
             gatherRequests (effs @ map snd tes) \<le> 1
             \<and> (filter discrete effs \<noteq> [] \<longrightarrow> filter (\<lambda>te. discrete (snd te)) tes = [])"
    using second by blast
  have G: "lastGesture s1 = Some g \<and> (\<forall>fr \<in> set frames. redetects g (snd fr)) \<longrightarrow>
             filter (\<lambda>te. discrete (snd te)) tes = [] \<and> lastGesture s' = Some g"
    using like by blast
  show ?thesis
    by (intro conjI A f(1) f(2) time apart F G)
qed

lemma detectGesture_fistFrame: "detectGesture fistFrame = Inr Fist"
  by (simp add: detectGesture_def fistFrame_def restLandmark_def fingerTips_def fingerPIPs_def
      upt_conv_Cons Let_def del: upt_Suc)

lemma detectGesture_openFrame: "detectGesture openFrame = Inr Open"
  by (simp add: detectGesture_def openFrame_def restLandmark_def fingerTips_def fingerPIPs_def
      upt_conv_Cons Let_def del: upt_Suc)

lemma detectGesture_partialFrame: "detectGesture partialFrame = Inr Partial"
  by (simp add: detectGesture_def partialFrame_def restLandmark_def fingerTips_def fingerPIPs_def
      upt_conv_Cons Let_def del: upt_Suc)

lemma frame_palm:
  "\<not> length fistFrame \<le> 9" "fistFrame ! 9 = restLandmark"
  "\<not> length openFrame \<le> 9" "openFrame ! 9 = restLandmark"
  "\<not> length partialFrame \<le> 9" "partialFrame ! 9 = restLandmark"
  by (simp_all add: fistFrame_def openFrame_def partialFrame_def)

lemma first_fist:
  "onHandResults steadyEnv CONFIG (\<lambda>_. 0) (Some [fistFrame]) (restingApp [] 5000)
     = Some (Inr ([SnowSpiral (Vector3 0 0 20), Transition True],
          (restingApp [] 5000)\<lparr> hts_detected := True, hts_position := Vector3 0 0 20,
             hts_gesture := Fist, isGathered := True, animating := True, btnDisabled := True,
             timers := [(5901, RibbonReveal (Some True))],
             lastGestureTime := 5000, lastGesture := Some Fist \<rparr>))"
  unfolding onHandResults_def Let_def
  by (simp add: frame_palm detectGesture_fistFrame transitionState_gather restLandmark_def
      CONFIG_def restingApp_def)

lemma second_fist:
  "handFrames steadyEnv CONFIG (\<lambda>_. 0) [(5100, Some [fistFrame])]
     ((restingApp [] 5000)\<lparr> hts_detected := True, hts_position := Vector3 0 0 20,
        hts_gesture := Fist, isGathered := True, animating := True, btnDisabled := True,
        timers := [(5901, RibbonReveal (Some True))],
        lastGestureTime := 5000, lastGesture := Some Fist \<rparr>)
     = Some (Inr ([(5100, SnowSpiral (Vector3 0 0 20))],
          (restingApp [] 5000)\<lparr> hts_detected := True, hts_position := Vector3 0 0 20,
             hts_gesture := Fist, isGathered := True, animating := True, btnDisabled := True,
             timers := [(5901, RibbonReveal (Some True))],
             lastGestureTime := 5000, lastGesture := Some Fist, now := 5100 \<rparr>))"
proof -
  let ?s1 = "(restingApp [] 5000)\<lparr> hts_detected := True, hts_position := Vector3 0 0 20,
        hts_gesture := Fist, isGathered := True, animating := True, btnDisabled := True,
        timers := [(5901, RibbonReveal (Some True))],
        lastGestureTime := 5000, lastGesture := Some Fist \<rparr>"
  have adv: "advance steadyEnv CONFIG 5100 ?s1 = ?s1\<lparr> now := 5100 \<rparr>"
    by (simp add: advance_single_later)
  show ?thesis
    unfolding handFrames.simps adv onHandResults_def Let_def
    by (simp add: frame_palm detectGesture_fistFrame restLandmark_def CONFIG_def restingApp_def)
qed

theorem gesture_debounce_witness:
  "\<exists>s1 s2.
     onHandResults steadyEnv CONFIG (\<lambda>_. 0) (Some [fistFrame]) (restingApp [] 5000)
       = Some (Inr ([SnowSpiral (Vector3 0 0 20), Transition True], s1))
     \<and> handFrames steadyEnv CONFIG (\<lambda>_. 0) [(5100, Some [fistFrame])] s1
       = Some (Inr ([(5100, SnowSpiral (Vector3 0 0 20))], s2))
     \<and> lastGesture s1 = Some Fist \<and> lastGestureTime s1 = 5000
     \<and> lastGesture s2 = Some Fist \<and> lastGestureTime s2 = 5000
     \<and> gestureDebounceTime CONFIG < now (restingApp [] 5000) - lastGestureTime (restingApp [] 5000)"
proof -
  let ?s1 = "(restingApp [] 5000)\<lparr> hts_detected := True, hts_position := Vector3 0 0 20,
        hts_gesture := Fist, isGathered := True, animating := True, btnDisabled := True,
        timers := [(5901, RibbonReveal (Some True))],
        lastGestureTime := 5000, lastGesture := Some Fist \<rparr>"
  let ?s2 = "?s1\<lparr> now := 5100 \<rparr>"
  note w = gesture_debounce [OF detectGesture_fistFrame first_fist second_fist]
  have a: "lastGesture ?s1 = Some Fist \<and> lastGestureTime ?s1 = 5000
      \<and> gestureDebounceTime CONFIG < now (restingApp [] 5000) - lastGestureTime (restingApp [] 5000)"
    using w by simp
  have b: "lastGestureTime ?s2 = 5000" using w by simp
  have c: "lastGesture ?s2 = Some Fist"
    using w detectGesture_fistFrame by (simp add: redetects_def)
  show ?thesis using first_fist second_fist a b c by blast
qed

text \<open>
  Claim C4 as stated fails: a gesture acts although it is the last gesture acted upon. An
  open hand at 5000 sends a wave; a partial hand at 6001 passes the test, triggers
  nothing and becomes \<open>lastGesture\<close>; the open hand at 6002 sends a second wave. So it
  does when, instead of the partial hand, the hand tracking is stopped and started again:
  \<open>stopHandTracking\<close> forgets the last gesture.
\<close>

theorem gesture_debounce_counterexample:
  "\<exists>s1 s2 s3 s4.
     handFrames steadyEnv CONFIG (\<lambda>_. 0)
       [(5000, Some [openFrame]), (6001, Some [partialFrame])] (restingApp [] 0)
       = Some (Inr ([(5000, SnowWave (Vector3 0 0 20))], s2))
     \<and> lastGesture s2 = Some Partial \<and> lastGestureTime s2 = 5000
     \<and> handFrames steadyEnv CONFIG (\<lambda>_. 0) [(6002, Some [openFrame])] s2
       = Some (Inr ([(6002, SnowWave (Vector3 0 0 20))], s3))
     \<and> handFrames steadyEnv CONFIG (\<lambda>_. 0)
       [(5000, Some [openFrame]), (6001, Some [partialFrame]), (6002, Some [openFrame])]
       (restingApp [] 0)
       = Some (Inr ([(5000, SnowWave (Vector3 0 0 20)), (6002, SnowWave (Vector3 0 0 20))], s3))
     \<and> handFrames steadyEnv CONFIG (\<lambda>_. 0) [(5000, Some [openFrame])] (restingApp [] 0)
       = Some (Inr ([(5000, SnowWave (Vector3 0 0 20))], s1))
     \<and> lastGesture s1 = Some Open \<and> lastGestureTime s1 = 5000
     \<and> handFrames steadyEnv CONFIG (\<lambda>_. 0) [(6002, Some [openFrame])] (stopHandTracking s1)
       = Some (Inr ([(6002, SnowWave (Vector3 0 0 20))], s4))"
proof -
  define s1 where "s1 = (restingApp [] 0)\<lparr> now := 5000, hts_detected := True,
      hts_position := Vector3 0 0 20, hts_gesture := Open,
      lastGestureTime := 5000, lastGesture := Some Open \<rparr>"
  define s2 where "s2 = s1\<lparr> now := 6001, hts_gesture := Partial, lastGesture := Some Partial \<rparr>"
  define s3 where "s3 = s2\<lparr> now := 6002, hts_gesture := Open, lastGestureTime := 6002,
      lastGesture := Some Open \<rparr>"
  have f1: "onHandResults steadyEnv CONFIG (\<lambda>_. 0) (Some [openFrame])
      (advance steadyEnv CONFIG 5000 (restingApp [] 0))
      = Some (Inr ([SnowWave (Vector3 0 0 20)], s1))"
    unfolding onHandResults_def Let_def s1_def
    by (simp add: advance_idle frame_palm detectGesture_openFrame restLandmark_def CONFIG_def
        restingApp_def)
  have f2: "onHandResults steadyEnv CONFIG (\<lambda>_. 0) (Some [partialFrame])
      (advance steadyEnv CONFIG 6001 s1) = Some (Inr ([], s2))"
    unfolding onHandResults_def Let_def s1_def s2_def
    by (simp add: advance_idle frame_palm detectGesture_partialFrame restLandmark_def CONFIG_def
        restingApp_def)
  have f3: "onHandResults steadyEnv CONFIG (\<lambda>_. 0) (Some [openFrame])
      (advance steadyEnv CONFIG 6002 s2) = Some (Inr ([SnowWave (Vector3 0 0 20)], s3))"
    unfolding onHandResults_def Let_def s1_def s2_def s3_def
    by (simp add: advance_idle frame_palm detectGesture_openFrame restLandmark_def CONFIG_def
        restingApp_def)
  have n: "now (advance steadyEnv CONFIG 5000 (restingApp [] 0)) = 5000"
    "now (advance steadyEnv CONFIG 6001 s1) = 6001"
    "now (advance steadyEnv CONFIG 6002 s2) = 6002"
    unfolding s1_def s2_def by (simp_all add: advance_idle)
  have a: "handFrames steadyEnv CONFIG (\<lambda>_. 0)
      [(5000, Some [openFrame]), (6001, Some [partialFrame])] (restingApp [] 0)
      = Some (Inr ([(5000, SnowWave (Vector3 0 0 20))], s2))"
    by (simp add: f1 f2 n)
  have b: "handFrames steadyEnv CONFIG (\<lambda>_. 0) [(6002, Some [openFrame])] s2
      = Some (Inr ([(6002, SnowWave (Vector3 0 0 20))], s3))"
    by (simp add: f3 n)
  have c: "handFrames steadyEnv CONFIG (\<lambda>_. 0)
      [(5000, Some [openFrame]), (6001, Some [partialFrame]), (6002, Some [openFrame])]
      (restingApp [] 0)
      = Some (Inr ([(5000, SnowWave (Vector3 0 0 20)), (6002, SnowWave (Vector3 0 0 20))], s3))"
    by (simp add: f1 f2 f3 n)
  have d: "lastGesture s2 = Some Partial \<and> lastGestureTime s2 = 5000"
    by (simp add: s1_def s2_def)
  define s4 where "s4 = s1\<lparr> now := 6002, lastGestureTime := 6002 \<rparr>"
  have f4: "onHandResults steadyEnv CONFIG (\<lambda>_. 0) (Some [openFrame])
      (advance steadyEnv CONFIG 6002 (stopHandTracking s1))
      = Some (Inr ([SnowWave (Vector3 0 0 20)], s4))"
    unfolding onHandResults_def Let_def s1_def s4_def stopHandTracking_def
    by (simp add: advance_idle frame_palm detectGesture_openFrame restLandmark_def CONFIG_def
        restingApp_def)
  have n4: "now (advance steadyEnv CONFIG 6002 (stopHandTracking s1)) = 6002"
    unfolding s1_def stopHandTracking_def by (simp add: advance_idle)
  have g: "handFrames steadyEnv CONFIG (\<lambda>_. 0) [(5000, Some [openFrame])] (restingApp [] 0)
      = Some (Inr ([(5000, SnowWave (Vector3 0 0 20))], s1))"
    by (simp add: f1 n)
  have h: "lastGesture s1 = Some Open \<and> lastGestureTime s1 = 5000"
    by (simp add: s1_def)
  have i: "handFrames steadyEnv CONFIG (\<lambda>_. 0) [(6002, Some [openFrame])] (stopHandTracking s1)
      = Some (Inr ([(6002, SnowWave (Vector3 0 0 20))], s4))"
    by (simp add: f4 n4)
  show ?thesis
    by (intro exI [of _ s1] exI [of _ s2] exI [of _ s3] exI [of _ s4] conjI
        a b c g i d [THEN conjunct1] d [THEN conjunct2] h [THEN conjunct1] h [THEN conjunct2])
qed


end
